theory Spec2Isabelle
  imports Main "HOL-Library.Sublist"
begin

text \<open>
  A model of the newsletter scraper of \<open>webscraper.py\<close> (\<open>ResponsibleScraper\<close>) and
  \<open>lamda_webscraper.py\<close> (\<open>LambdaScraper\<close> and the loops of \<open>lambda_handler\<close>):
  the article pass over a parsed page, the robots.txt check, the retry loop of
  \<open>scrape_url\<close> and the date-range drivers. Functions of the Lambda file carry the prefix
  \<open>l_\<close>; where the two files have the same code, one definition serves both.
\<close>

section \<open>Python strings\<close>

text \<open>
  A Python \<open>str\<close> is modelled as a \<open>string\<close>, one \<open>char\<close> per character, so that
  \<open>length\<close> is Python's \<open>len\<close> and \<open>take n\<close> is the slice \<open>[:n]\<close>. The characters
  covered are the code points below 256.
\<close>

definition isspace :: "char \<Rightarrow> bool" where
  \<comment> \<open>the characters \<open>str.strip()\<close> removes: TAB..CR, FS..US, space, NEL, NBSP\<close>
  "isspace c =
     (let n = (of_char c :: nat)
      in (9 \<le> n \<and> n \<le> 13) \<or> (28 \<le> n \<and> n \<le> 32) \<or> n = 133 \<or> n = 160)"

definition strip :: "string \<Rightarrow> string" where
  "strip s = rev (dropWhile isspace (rev (dropWhile isspace s)))"

definition startswith :: "string \<Rightarrow> string \<Rightarrow> bool" where
  "startswith s p = (take (length p) s = p)"

fun contains :: "string \<Rightarrow> string \<Rightarrow> bool" where
  \<comment> \<open>\<open>sub in s\<close>\<close>
  "contains [] sub = (sub = [])"
| "contains (c # cs) sub = (startswith (c # cs) sub \<or> contains cs sub)"

fun join_space :: "string list \<Rightarrow> string" where
  \<comment> \<open>\<open>' '.join(xs)\<close>\<close>
  "join_space [] = []"
| "join_space [x] = x"
| "join_space (x # y # ys) = x @ '' '' @ join_space (y # ys)"

definition digit_char :: "nat \<Rightarrow> char" where
  "digit_char d = ''0123456789'' ! d"

fun str_nat :: "nat \<Rightarrow> string" where
  \<comment> \<open>\<open>str(n)\<close> for a non-negative integer: its decimal digits\<close>
  "str_nat n = (if n < 10 then [digit_char n] else str_nat (n div 10) @ [digit_char (n mod 10)])"

declare str_nat.simps [simp del]

section \<open>Library functions the scraper calls\<close>

text \<open>
  \<open>urllib.parse\<close>, \<open>hashlib\<close>, \<open>re\<close>, \<open>bs4\<close> and the rule matching of
  \<open>urllib.robotparser\<close> are not code of the repository. The model takes them as the
  fields of one parameter \<open>L\<close>; every general theorem below holds for each choice of \<open>L\<close>.
\<close>

record container =
  markup :: string
    \<comment> \<open>\<open>str(container)\<close>\<close>
  heading_texts :: "string list"
    \<comment> \<open>\<open>tag.get_text()\<close> for the tags of \<open>find_all(['h1', ..., 'h6'])\<close>, in that order\<close>
  hrefs :: "string list"
    \<comment> \<open>the \<open>href\<close> of each tag of \<open>find_all('a', href=True)\<close>, in that order\<close>
  img :: "(string option \<times> string option) option"
    \<comment> \<open>\<open>find('img')\<close>: its \<open>src\<close> and \<open>data-src\<close> attributes\<close>
  desc_texts :: "string list"
    \<comment> \<open>\<open>get_text()\<close> of the divs whose class has line-clamp, description, summary or excerpt\<close>
  p_texts :: "string list"
    \<comment> \<open>\<open>get_text()\<close> of \<open>find_all('p')\<close>\<close>
  date_span_texts :: "string list"
    \<comment> \<open>\<open>get_text()\<close> of the spans whose class has date\<close>
  text_content :: string
    \<comment> \<open>\<open>container.get_text()\<close>\<close>
  text_nodes :: "(string option \<times> string) list"
    \<comment> \<open>\<open>find_all(text=True)\<close>: for each text node the \<open>name\<close> of its parent (\<open>None\<close>
        when \<open>elem.parent\<close> is \<open>None\<close>) and the text\<close>

record document =
  flex_divs :: "container list"
    \<comment> \<open>\<open>find_all('div', class_=...)\<close> with the flex / flex-col / flex-row-reverse test\<close>
  article_tags :: "container list"
    \<comment> \<open>\<open>find_all('article')\<close>\<close>
  class_divs :: "container list"
    \<comment> \<open>\<open>find_all('div', class_=...)\<close> with the article / post / story / item test\<close>
  title_tag :: "string option"
    \<comment> \<open>\<open>get_text()\<close> of \<open>find('title')\<close>\<close>

record pylib =
  urljoin :: "string \<Rightarrow> string \<Rightarrow> string"
  urlparse_scheme :: "string \<Rightarrow> string"
  urlparse_netloc :: "string \<Rightarrow> string"
  md5_hexdigest :: "string \<Rightarrow> string"
    \<comment> \<open>\<open>hashlib.md5(s.encode()).hexdigest()\<close>\<close>
  minute_read :: "string \<Rightarrow> string option"
    \<comment> \<open>group 1 of \<open>re.search(r'(\d+)\s*minute\s*read', s, re.IGNORECASE)\<close>\<close>
  BeautifulSoup :: "string \<Rightarrow> document"
  robots_allows :: "string \<Rightarrow> string \<Rightarrow> string \<Rightarrow> bool"
    \<comment> \<open>the entries parsed from a robots.txt text, asked for a user agent and a URL\<close>
  strftime_ymd :: "int \<Rightarrow> string \<times> string \<times> string"
    \<comment> \<open>\<open>%Y\<close>, \<open>%m\<close> and \<open>%d\<close> of the day with this ordinal\<close>
  month_day :: "int \<Rightarrow> nat \<times> nat"
    \<comment> \<open>\<open>date.month\<close> and \<open>date.day\<close>\<close>

section \<open>Article extraction\<close>

record article =
  record_id :: string
  title :: string
  link :: "string option"
  description :: "string option"
  body :: string
  image_url :: "string option"
  date :: "string option"
  category :: "string option"
  reading_time :: "string option"
  source_page :: string
  extraction_index :: nat

datatype error = AttributeError
  \<comment> \<open>what \<open>elem.parent.name\<close> raises for a text node without a parent; the caller
      catches every exception of one container and goes on with the next\<close>

fun find_title :: "string list \<Rightarrow> string option" where
  "find_title [] = None"
| "find_title (tag # title_tags) =
     (let title_text = strip tag
      in if title_text \<noteq> [] \<and> length title_text > 10 then Some title_text
         else find_title title_tags)"

fun find_link :: "pylib \<Rightarrow> string \<Rightarrow> string list \<Rightarrow> string option \<Rightarrow> string option" where
  "find_link L page_url [] article_link = article_link"
| "find_link L page_url (href # links) article_link =
     (if href \<noteq> [] \<and> \<not> startswith href ''#'' \<and> \<not> startswith href ''/'' then Some href
      else if href \<noteq> [] \<and> startswith href ''/''
        then find_link L page_url links (Some (urljoin L page_url href))
      else find_link L page_url links article_link)"

definition py_or :: "string option \<Rightarrow> string option \<Rightarrow> string option" where
  \<comment> \<open>\<open>a or b\<close> on values that are \<open>None\<close> or a string\<close>
  "py_or a b = (case a of None \<Rightarrow> b | Some x \<Rightarrow> if x \<noteq> [] then Some x else b)"

definition find_image :: "pylib \<Rightarrow> string \<Rightarrow> container \<Rightarrow> string option" where
  "find_image L page_url c =
     (case img c of
        None \<Rightarrow> None
      | Some (src, data_src) \<Rightarrow>
          (case py_or src data_src of
             None \<Rightarrow> None
           | Some img_url \<Rightarrow>
               if img_url \<noteq> [] \<and> \<not> startswith img_url ''http''
               then Some (urljoin L page_url img_url) else Some img_url))"

fun first_long_text :: "string list \<Rightarrow> string option" where
  "first_long_text [] = None"
| "first_long_text (t # ts) =
     (let desc_text = strip t
      in if desc_text \<noteq> [] \<and> length desc_text > 20 then Some desc_text
         else first_long_text ts)"

definition find_description :: "container \<Rightarrow> string option" where
  "find_description c =
     (case first_long_text (desc_texts c) of
        Some d \<Rightarrow> Some d
      | None \<Rightarrow> first_long_text (p_texts c))"

definition months :: "string list" where
  "months = [''Jan'', ''Feb'', ''Mar'', ''Apr'', ''May'', ''Jun'',
             ''Jul'', ''Aug'', ''Sep'', ''Oct'', ''Nov'', ''Dec'']"

definition split_bar :: "string \<Rightarrow> string list" where
  \<comment> \<open>the first two parts of \<open>text.split('|')\<close>, for a text that has a bar\<close>
  "split_bar text =
     [takeWhile (\<lambda>c. c \<noteq> CHR ''|'') text,
      takeWhile (\<lambda>c. c \<noteq> CHR ''|'') (drop 1 (dropWhile (\<lambda>c. c \<noteq> CHR ''|'') text))]"

fun find_date :: "string list \<Rightarrow> string option \<times> string option \<Rightarrow> string option \<times> string option" where
  "find_date [] dc = dc"
| "find_date (span # date_spans) (date_info, cat) =
     (let text = strip span
      in if text = [] then find_date date_spans (date_info, cat)
         else if list_ex (contains text) months then find_date date_spans (Some text, cat)
         else if contains text ''|''
           then find_date date_spans
                  (Some (strip (split_bar text ! 0)), Some (strip (split_bar text ! 1)))
         else find_date date_spans (date_info, cat))"

fun full_text :: "(string option \<times> string) list \<Rightarrow> error + string list" where
  "full_text [] = Inr []"
| "full_text ((parent, elem) # elems) =
     (case parent of
        None \<Rightarrow> Inl AttributeError
      | Some name \<Rightarrow>
          (case full_text elems of
             Inl e \<Rightarrow> Inl e
           | Inr rest \<Rightarrow>
               if name \<notin> set [''script'', ''style'', ''button'', ''a'']
                  \<and> strip elem \<noteq> [] \<and> length (strip elem) > 5
               then Inr (strip elem # rest) else Inr rest))"

definition generate_article_id :: "pylib \<Rightarrow> string \<Rightarrow> string \<Rightarrow> nat \<Rightarrow> string" where
  "generate_article_id L page_url title_text index =
     take 16 (md5_hexdigest L (page_url @ ''|'' @ title_text @ ''|'' @ str_nat index))"

definition parse_article_container ::
    "pylib \<Rightarrow> container \<Rightarrow> string \<Rightarrow> nat \<Rightarrow> error + article option" where
  "parse_article_container L c page_url index =
     (case find_title (heading_texts c) of
        None \<Rightarrow> Inr None
      | Some title_text \<Rightarrow>
          (let article_link = find_link L page_url (hrefs c) None;
               img_url = find_image L page_url c;
               desc = find_description c;
               (date_info, cat) = find_date (date_span_texts c) (None, None);
               minutes =
                 map_option (\<lambda>g. g @ '' minute read'') (minute_read L (text_content c));
               article_id = generate_article_id L page_url title_text index
           in case full_text (text_nodes c) of
                Inl e \<Rightarrow> Inl e
              | Inr texts \<Rightarrow>
                  Inr (Some \<lparr>record_id = article_id, title = title_text, link = article_link,
                             description = desc, body = join_space texts,
                             image_url = img_url, date = date_info, category = cat,
                             reading_time = minutes, source_page = page_url,
                             extraction_index = index\<rparr>)))"

definition fingerprint :: "container \<Rightarrow> string" where
  "fingerprint c = take 200 (markup c)"

fun unique_loop :: "container list \<Rightarrow> string set \<Rightarrow> container list \<Rightarrow> container list" where
  "unique_loop [] seen_containers unique_containers = unique_containers"
| "unique_loop (c # cs) seen_containers unique_containers =
     (let container_html = fingerprint c
      in if container_html \<notin> seen_containers
         then unique_loop cs (insert container_html seen_containers) (unique_containers @ [c])
         else unique_loop cs seen_containers unique_containers)"

definition article_containers :: "document \<Rightarrow> container list" where
  "article_containers soup = flex_divs soup @ article_tags soup @ class_divs soup"

definition unique_containers :: "document \<Rightarrow> container list" where
  "unique_containers soup = unique_loop (article_containers soup) {} []"

fun articles_loop ::
    "pylib \<Rightarrow> string \<Rightarrow> (nat \<times> container) list \<Rightarrow> article list \<Rightarrow> article list" where
  "articles_loop L page_url [] arts = arts"
| "articles_loop L page_url ((idx, c) # rest) arts =
     (case parse_article_container L c page_url idx of
        Inl e \<Rightarrow> articles_loop L page_url rest arts
      | Inr None \<Rightarrow> articles_loop L page_url rest arts
      | Inr (Some a) \<Rightarrow>
          if title a \<noteq> [] then articles_loop L page_url rest (arts @ [a])
          else articles_loop L page_url rest arts)"

definition extract_articles :: "pylib \<Rightarrow> document \<Rightarrow> string \<Rightarrow> article list" where
  "extract_articles L soup page_url =
     articles_loop L page_url (enumerate 0 (unique_containers soup)) []"

text \<open>
  The Lambda handler's \<open>_parse_article_container\<close> is the same code without the date,
  category and reading-time steps. Its dictionary has no such keys; the model writes
  \<open>None\<close> there.
\<close>

definition l_parse_article_container ::
    "pylib \<Rightarrow> container \<Rightarrow> string \<Rightarrow> nat \<Rightarrow> error + article option" where
  "l_parse_article_container L c page_url index =
     (case find_title (heading_texts c) of
        None \<Rightarrow> Inr None
      | Some title_text \<Rightarrow>
          (let article_link = find_link L page_url (hrefs c) None;
               img_url = find_image L page_url c;
               desc = find_description c
           in case full_text (text_nodes c) of
                Inl e \<Rightarrow> Inl e
              | Inr texts \<Rightarrow>
                  Inr (Some \<lparr>record_id = generate_article_id L page_url title_text index,
                             title = title_text, link = article_link,
                             description = desc, body = join_space texts,
                             image_url = img_url, date = None, category = None,
                             reading_time = None, source_page = page_url,
                             extraction_index = index\<rparr>)))"

fun l_articles_loop ::
    "pylib \<Rightarrow> string \<Rightarrow> (nat \<times> container) list \<Rightarrow> article list \<Rightarrow> article list" where
  "l_articles_loop L page_url [] arts = arts"
| "l_articles_loop L page_url ((idx, c) # rest) arts =
     (case l_parse_article_container L c page_url idx of
        Inl e \<Rightarrow> l_articles_loop L page_url rest arts
      | Inr None \<Rightarrow> l_articles_loop L page_url rest arts
      | Inr (Some a) \<Rightarrow>
          if title a \<noteq> [] then l_articles_loop L page_url rest (arts @ [a])
          else l_articles_loop L page_url rest arts)"

definition l_extract_articles :: "pylib \<Rightarrow> document \<Rightarrow> string \<Rightarrow> article list" where
  "l_extract_articles L soup page_url =
     l_articles_loop L page_url (enumerate 0 (unique_containers soup)) []"

section \<open>Robots policy\<close>

text \<open>
  The network is a function \<open>w\<close>: \<open>w n u\<close> is what the \<open>n\<close>-th request of the run
  gets when it asks for \<open>u\<close>. The scraper counts its requests in \<open>clock\<close> and records
  its effects (requests, sleeps, files written) in \<open>trace\<close>, oldest first.

  \<open>RobotFileParser\<close> is the class of the standard library (\<open>urllib.robotparser\<close>). The
  model keeps the three fields its \<open>can_fetch\<close> tests before it looks at any rule,
  \<open>disallow_all\<close>, \<open>allow_all\<close> and \<open>last_checked\<close>, in the order the library tests
  them: a parser that has read nothing (\<open>last_checked\<close> still 0) allows no URL. The
  matching of the parsed rules is the library parameter \<open>robots_allows\<close>.
\<close>

datatype http_result = Raised | Returned int string
  \<comment> \<open>an exception of the transport, or a response with its status code and text\<close>

type_synonym world = "nat \<Rightarrow> string \<Rightarrow> http_result"

datatype event =
    Robots_get string
  | Robots_saved string
  | Robots_read string
  | Rate_limit_sleep
  | Page_get string
  | Backoff nat
  | S3_put string

record scraping_config =
  user_agent :: string
  max_retries :: int
  respect_robots_txt :: bool
  max_pages_per_domain :: int
  save_robots_txt :: bool
  skip_weekends :: bool
  max_consecutive_failures :: int

record robot_parser =
  rp_url :: string
  disallow_all :: bool
  allow_all :: bool
  last_checked :: nat
    \<comment> \<open>0 until \<open>modified()\<close> stores the time\<close>
  robots_text :: string
    \<comment> \<open>the text whose lines \<open>parse\<close> was given\<close>

record scraper =
  config :: scraping_config
  robot_parsers :: "string \<rightharpoonup> robot_parser"
  robots_content :: "string \<rightharpoonup> string"
  saved_robots :: "string set"
  domain_counters :: "string \<rightharpoonup> nat"
  consecutive_failures :: nat
  clock :: nat
  trace :: "event list"

definition RobotFileParser :: "string \<Rightarrow> robot_parser" where
  \<comment> \<open>\<open>rp = RobotFileParser(); rp.set_url(robots_url)\<close>\<close>
  "RobotFileParser robots_url =
     \<lparr>rp_url = robots_url, disallow_all = False, allow_all = False, last_checked = 0,
      robots_text = []\<rparr>"

definition rp_parse :: "nat \<Rightarrow> string \<Rightarrow> robot_parser \<Rightarrow> robot_parser" where
  \<comment> \<open>\<open>RobotFileParser.parse\<close>: \<open>modified()\<close> stores the time, which is not 0\<close>
  "rp_parse now text rp = rp\<lparr>last_checked := Suc now, robots_text := text\<rparr>"

definition rp_read :: "world \<Rightarrow> nat \<Rightarrow> robot_parser \<Rightarrow> robot_parser option" where
  \<comment> \<open>\<open>RobotFileParser.read\<close>: \<open>urlopen\<close> raises \<open>HTTPError\<close> for a status outside
      200..299, which \<open>read\<close> catches; any other exception leaves \<open>read\<close> (\<open>None\<close>)\<close>
  "rp_read w n rp =
     (case w n (rp_url rp) of
        Raised \<Rightarrow> None
      | Returned code text \<Rightarrow>
          if 200 \<le> code \<and> code < 300 then Some (rp_parse n text rp)
          else if code = 401 \<or> code = 403 then Some (rp\<lparr>disallow_all := True\<rparr>)
          else if 400 \<le> code \<and> code < 500 then Some (rp\<lparr>allow_all := True\<rparr>)
          else Some rp)"

definition rp_can_fetch :: "pylib \<Rightarrow> robot_parser \<Rightarrow> string \<Rightarrow> string \<Rightarrow> bool" where
  \<comment> \<open>\<open>RobotFileParser.can_fetch\<close>\<close>
  "rp_can_fetch L rp useragent url =
     (if disallow_all rp then False
      else if allow_all rp then True
      else if last_checked rp = 0 then False
      else robots_allows L (robots_text rp) useragent url)"

definition store_parser :: "string \<Rightarrow> robot_parser \<Rightarrow> scraper \<Rightarrow> robot_parser \<times> scraper" where
  \<comment> \<open>\<open>self.robot_parsers[domain] = rp\<close>\<close>
  "store_parser domain rp s = (rp, s\<lparr>robot_parsers := (robot_parsers s)(domain \<mapsto> rp)\<rparr>)"

definition load_robots :: "pylib \<Rightarrow> world \<Rightarrow> scraper \<Rightarrow> string \<Rightarrow> robot_parser \<times> scraper" where
  \<comment> \<open>the body of \<open>if domain not in self.robot_parsers\<close> in webscraper.py\<close>
  "load_robots L w s domain =
     (let robots_url = urljoin L domain ''/robots.txt'';
          s1 = s\<lparr>clock := Suc (clock s), trace := trace s @ [Robots_get robots_url]\<rparr>
      in case w (clock s) robots_url of
           Raised \<Rightarrow> store_parser domain (RobotFileParser robots_url) s1
         | Returned code text \<Rightarrow>
             if code = 200 then
               (let s2 = s1\<lparr>robots_content := (robots_content s1)(domain \<mapsto> text)\<rparr>;
                    s3 = (if save_robots_txt (config s2) \<and> domain \<notin> saved_robots s2
                          then s2\<lparr>saved_robots := insert domain (saved_robots s2),
                                  trace := trace s2 @ [Robots_saved domain]\<rparr>
                          else s2);
                    s4 = s3\<lparr>clock := Suc (clock s3), trace := trace s3 @ [Robots_read robots_url]\<rparr>
                in case rp_read w (clock s3) (RobotFileParser robots_url) of
                     Some rp \<Rightarrow> store_parser domain rp s4
                   | None \<Rightarrow> store_parser domain (RobotFileParser robots_url) s4)
             else store_parser domain (RobotFileParser robots_url) s1)"

definition can_fetch :: "pylib \<Rightarrow> world \<Rightarrow> scraper \<Rightarrow> string \<Rightarrow> string \<Rightarrow> bool \<times> scraper" where
  "can_fetch L w s url agent =
     (let domain = urlparse_scheme L url @ ''://'' @ urlparse_netloc L url;
          (rp, s') = (case robot_parsers s domain of
                        None \<Rightarrow> load_robots L w s domain
                      | Some rp \<Rightarrow> (rp, s))
      in (rp_can_fetch L rp agent url, s'))"

definition l_load_robots :: "pylib \<Rightarrow> world \<Rightarrow> scraper \<Rightarrow> string \<Rightarrow> robot_parser \<times> scraper" where
  \<comment> \<open>the same body in lamda_webscraper.py: the text is parsed, nothing is saved\<close>
  "l_load_robots L w s domain =
     (let robots_url = urljoin L domain ''/robots.txt'';
          s1 = s\<lparr>clock := Suc (clock s), trace := trace s @ [Robots_get robots_url]\<rparr>
      in case w (clock s) robots_url of
           Raised \<Rightarrow> store_parser domain (RobotFileParser robots_url) s1
         | Returned code text \<Rightarrow>
             if code = 200
             then store_parser domain (rp_parse (clock s) text (RobotFileParser robots_url)) s1
             else store_parser domain (RobotFileParser robots_url) s1)"

definition l_can_fetch :: "pylib \<Rightarrow> world \<Rightarrow> scraper \<Rightarrow> string \<Rightarrow> string \<Rightarrow> bool \<times> scraper" where
  "l_can_fetch L w s url agent =
     (let domain = urlparse_scheme L url @ ''://'' @ urlparse_netloc L url;
          (rp, s') = (case robot_parsers s domain of
                        None \<Rightarrow> l_load_robots L w s domain
                      | Some rp \<Rightarrow> (rp, s))
      in (rp_can_fetch L rp agent url, s'))"

section \<open>Fetching one page\<close>

text \<open>
  Of the dictionary \<open>scrape_url\<close> returns, the model keeps the entries the control
  flow and the article pass decide; content, meta description, headings, links, content
  type and capture time are read off the document or the clock and are left out. The
  rate-limit delay is a random float: the model records that the sleep happened
  (\<open>Rate_limit_sleep\<close>), not its length. The retry loop catches
  \<open>requests.RequestException\<close> only, which is what a failed request or an error status
  raises; the model has no other exception inside the loop.
\<close>

record page_result =
  p_url :: string
  p_title :: string
  articles :: "article list"
  article_count :: nat
  status_code :: int
  scraped_date :: "int option"
    \<comment> \<open>added by the date-range driver\<close>

definition extract_title :: "document \<Rightarrow> string" where
  "extract_title soup = (case title_tag soup of None \<Rightarrow> [] | Some t \<Rightarrow> strip t)"

definition quota_reached :: "scraper \<Rightarrow> string \<Rightarrow> bool" where
  \<comment> \<open>\<open>domain in self.domain_counters and self.domain_counters[domain] >= max_pages_per_domain\<close>\<close>
  "quota_reached s domain =
     (case domain_counters s domain of
        None \<Rightarrow> False
      | Some n \<Rightarrow> int n \<ge> max_pages_per_domain (config s))"

definition should_scrape_url :: "pylib \<Rightarrow> world \<Rightarrow> scraper \<Rightarrow> string \<Rightarrow> bool \<times> scraper" where
  "should_scrape_url L w s page =
     (if quota_reached s (urlparse_netloc L page) then (False, s)
      else if respect_robots_txt (config s)
        then can_fetch L w s page (user_agent (config s))
      else (True, s))"

definition session_get :: "world \<Rightarrow> nat \<Rightarrow> string \<Rightarrow> (int \<times> string) option" where
  \<comment> \<open>\<open>session.get\<close> then \<open>raise_for_status\<close>: \<open>None\<close> is a \<open>RequestException\<close>\<close>
  "session_get w n page =
     (case w n page of
        Raised \<Rightarrow> None
      | Returned code text \<Rightarrow> if 400 \<le> code \<and> code < 600 then None else Some (code, text))"

definition count_page :: "string \<Rightarrow> scraper \<Rightarrow> scraper" where
  \<comment> \<open>\<open>self.domain_counters[domain] = self.domain_counters.get(domain, 0) + 1\<close>\<close>
  "count_page domain s =
     s\<lparr>domain_counters := (domain_counters s)
          (domain \<mapsto> (case domain_counters s domain of None \<Rightarrow> 0 | Some n \<Rightarrow> n) + 1)\<rparr>"

fun attempt_loop ::
    "pylib \<Rightarrow> world \<Rightarrow> string \<Rightarrow> nat list \<Rightarrow> scraper \<Rightarrow> page_result option \<times> scraper" where
  "attempt_loop L w page [] s =
     (None, s\<lparr>consecutive_failures := consecutive_failures s + 1\<rparr>)"
| "attempt_loop L w page (attempt # rest) s =
     (let s1 = s\<lparr>clock := Suc (clock s),
                  trace := trace s @ [Rate_limit_sleep, Page_get page]\<rparr>
      in case session_get w (clock s) page of
           Some (code, content) \<Rightarrow>
             (let s2 = (count_page (urlparse_netloc L page) s1)\<lparr>consecutive_failures := 0\<rparr>;
                  soup = BeautifulSoup L content;
                  arts = extract_articles L soup page
              in (Some \<lparr>p_url = page, p_title = extract_title soup, articles = arts,
                        article_count = length arts, status_code = code,
                        scraped_date = None\<rparr>, s2))
         | None \<Rightarrow>
             attempt_loop L w page rest
               (if int attempt < max_retries (config s) - 1
                then s1\<lparr>trace := trace s1 @ [Backoff (2 ^ attempt)]\<rparr> else s1))"

definition scrape_url ::
    "pylib \<Rightarrow> world \<Rightarrow> scraper \<Rightarrow> string \<Rightarrow> page_result option \<times> scraper" where
  "scrape_url L w s page =
     (case should_scrape_url L w s page of
        (ok, s') \<Rightarrow>
          if \<not> ok then (None, s')
          else attempt_loop L w page [0..<nat (max_retries (config s'))] s')"

text \<open>\<open>LambdaScraper\<close>: no page quota and no domain counters.\<close>

definition l_should_scrape_url :: "pylib \<Rightarrow> world \<Rightarrow> scraper \<Rightarrow> string \<Rightarrow> bool \<times> scraper" where
  "l_should_scrape_url L w s page =
     (if respect_robots_txt (config s)
        then l_can_fetch L w s page (user_agent (config s))
      else (True, s))"

fun l_attempt_loop ::
    "pylib \<Rightarrow> world \<Rightarrow> string \<Rightarrow> nat list \<Rightarrow> scraper \<Rightarrow> page_result option \<times> scraper" where
  "l_attempt_loop L w page [] s =
     (None, s\<lparr>consecutive_failures := consecutive_failures s + 1\<rparr>)"
| "l_attempt_loop L w page (attempt # rest) s =
     (let s1 = s\<lparr>clock := Suc (clock s),
                  trace := trace s @ [Rate_limit_sleep, Page_get page]\<rparr>
      in case session_get w (clock s) page of
           Some (code, content) \<Rightarrow>
             (let s2 = s1\<lparr>consecutive_failures := 0\<rparr>;
                  soup = BeautifulSoup L content;
                  arts = l_extract_articles L soup page
              in (Some \<lparr>p_url = page, p_title = extract_title soup, articles = arts,
                        article_count = length arts, status_code = code,
                        scraped_date = None\<rparr>, s2))
         | None \<Rightarrow>
             l_attempt_loop L w page rest
               (if int attempt < max_retries (config s) - 1
                then s1\<lparr>trace := trace s1 @ [Backoff (2 ^ attempt)]\<rparr> else s1))"

definition l_scrape_url ::
    "pylib \<Rightarrow> world \<Rightarrow> scraper \<Rightarrow> string \<Rightarrow> page_result option \<times> scraper" where
  "l_scrape_url L w s page =
     (case l_should_scrape_url L w s page of
        (ok, s') \<Rightarrow>
          if \<not> ok then (None, s')
          else l_attempt_loop L w page [0..<nat (max_retries (config s'))] s')"

section \<open>Date ranges\<close>

text \<open>
  A date is its day number (\<open>date.toordinal()\<close>); day 1 is a Monday. Parsing the
  \<open>YYYY-MM-DD\<close> arguments is \<open>strptime\<close>'s work and happens before the loops.
\<close>

definition weekday :: "int \<Rightarrow> int" where
  "weekday d = (d - 1) mod 7"

function generate_date_range :: "int \<Rightarrow> int \<Rightarrow> bool \<Rightarrow> int list" where
  "generate_date_range current stop skip =
     (if current \<le> stop
      then if skip \<and> weekday current \<ge> 5
           then generate_date_range (current + 1) stop skip
           else current # generate_date_range (current + 1) stop skip
      else [])"
  by pat_completeness auto
termination
  by (relation "measure (\<lambda>(current, stop, skip). nat (stop - current + 1))") auto

declare generate_date_range.simps [simp del]

function str_replace :: "string \<Rightarrow> string \<Rightarrow> string \<Rightarrow> string" where
  \<comment> \<open>\<open>s.replace(old, new)\<close> for a non-empty \<open>old\<close>\<close>
  "str_replace [] old new = []"
| "str_replace (c # cs) old new =
     (if old \<noteq> [] \<and> startswith (c # cs) old
      then new @ str_replace (drop (length old) (c # cs)) old new
      else c # str_replace cs old new)"
  by pat_completeness auto
termination
  by (relation "measure (\<lambda>(s, old, new). length s)") auto

definition date_str :: "pylib \<Rightarrow> int \<Rightarrow> string" where
  \<comment> \<open>\<open>date.strftime('%Y-%m-%d')\<close>\<close>
  "date_str L d = (case strftime_ymd L d of (y, m, dd) \<Rightarrow> y @ ''-'' @ m @ ''-'' @ dd)"

definition format_url_with_date :: "pylib \<Rightarrow> string \<Rightarrow> int \<Rightarrow> string" where
  "format_url_with_date L url_template d =
     (case strftime_ymd L d of
        (y, m, dd) \<Rightarrow>
          foldl (\<lambda>formatted_url (placeholder, v). str_replace formatted_url placeholder v)
            url_template
            [(''{YYYY}'', y), (''{MM}'', m), (''{DD}'', dd), (''{YYYY-MM-DD}'', date_str L d),
             (''{M}'', str_nat (fst (month_day L d))), (''{D}'', str_nat (snd (month_day L d)))])"

fun date_loop ::
    "pylib \<Rightarrow> world \<Rightarrow> string \<Rightarrow> int list \<Rightarrow> scraper \<Rightarrow> page_result list
      \<Rightarrow> page_result list \<times> scraper" where
  "date_loop L w url_template [] s results = (results, s)"
| "date_loop L w url_template (d # ds) s results =
     (if int (consecutive_failures s) \<ge> max_consecutive_failures (config s)
      then (results, s)
      else case scrape_url L w s (format_url_with_date L url_template d) of
             (Some data, s') \<Rightarrow>
               date_loop L w url_template ds s' (results @ [data\<lparr>scraped_date := Some d\<rparr>])
           | (None, s') \<Rightarrow> date_loop L w url_template ds s' results)"

definition scrape_date_range ::
    "pylib \<Rightarrow> world \<Rightarrow> scraper \<Rightarrow> string \<Rightarrow> int \<Rightarrow> int \<Rightarrow> page_result list \<times> scraper" where
  "scrape_date_range L w s url_template start_date end_date =
     date_loop L w url_template
       (generate_date_range start_date end_date (skip_weekends (config s))) s []"

text \<open>
  The loops of \<open>lambda_handler\<close>: every date of every category is scraped, and each
  gets one entry, with status success or failed.
\<close>

datatype status = Success | Failed

record handler_entry =
  e_date :: int
  e_category :: string
  e_url :: string
  e_article_count :: "nat option"
  e_status :: status

fun l_date_loop ::
    "pylib \<Rightarrow> world \<Rightarrow> string \<Rightarrow> string \<Rightarrow> int list \<Rightarrow> scraper \<Rightarrow> handler_entry list
      \<Rightarrow> handler_entry list \<times> scraper" where
  "l_date_loop L w url_template cat [] s category_results = (category_results, s)"
| "l_date_loop L w url_template cat (d # dates) s category_results =
     (let page = format_url_with_date L url_template d
      in case l_scrape_url L w s page of
           (Some data, s') \<Rightarrow>
             (let full_key = ''scraped_data/'' @ cat @ ''/full/'' @ date_str L d @ ''.json'';
                  articles_key = ''scraped_data/'' @ cat @ ''/articles/'' @ date_str L d @ ''.json'';
                  s2 = s'\<lparr>trace := trace s' @ [S3_put full_key]
                                @ (if articles data \<noteq> [] then [S3_put articles_key] else [])\<rparr>
              in l_date_loop L w url_template cat dates s2
                   (category_results @
                    [\<lparr>e_date = d, e_category = cat, e_url = page,
                      e_article_count = Some (length (articles data)), e_status = Success\<rparr>]))
         | (None, s') \<Rightarrow>
             l_date_loop L w url_template cat dates s'
               (category_results @
                [\<lparr>e_date = d, e_category = cat, e_url = page,
                  e_article_count = None, e_status = Failed\<rparr>]))"

fun l_category_loop ::
    "pylib \<Rightarrow> world \<Rightarrow> (string \<times> string) list \<Rightarrow> int list \<Rightarrow> scraper \<Rightarrow> handler_entry list
      \<Rightarrow> handler_entry list \<times> scraper" where
  "l_category_loop L w [] dates s all_results = (all_results, s)"
| "l_category_loop L w ((url_template, cat) # url_templates) dates s all_results =
     (case l_date_loop L w url_template cat dates s [] of
        (category_results, s') \<Rightarrow>
          l_category_loop L w url_templates dates s' (all_results @ category_results))"

section \<open>Vocabulary of the properties\<close>

definition page_events :: "event list \<Rightarrow> event list" where
  \<comment> \<open>what fetching a page leaves in the trace: rate-limit sleeps, page requests, backoffs\<close>
  "page_events tr =
     filter (\<lambda>e. case e of Rate_limit_sleep \<Rightarrow> True | Page_get u \<Rightarrow> True
                        | Backoff n \<Rightarrow> True | _ \<Rightarrow> False) tr"

fun backoffs :: "event list \<Rightarrow> nat list" where
  \<comment> \<open>the seconds of the backoff sleeps, in order\<close>
  "backoffs [] = []"
| "backoffs (Backoff n # tr) = n # backoffs tr"
| "backoffs (e # tr) = backoffs tr"

fun pages_requested :: "event list \<Rightarrow> string list" where
  \<comment> \<open>the URLs of the page requests, in order\<close>
  "pages_requested [] = []"
| "pages_requested (Page_get u # tr) = u # pages_requested tr"
| "pages_requested (e # tr) = pages_requested tr"

definition attempt_events :: "scraper \<Rightarrow> string \<Rightarrow> nat \<Rightarrow> event list" where
  \<comment> \<open>attempt \<open>i\<close> when it fails: the rate-limit sleep, the request, and the backoff
      unless it was the last attempt allowed\<close>
  "attempt_events s page i =
     [Rate_limit_sleep, Page_get page]
     @ (if int i < max_retries (config s) - 1 then [Backoff (2 ^ i)] else [])"

definition same_counters :: "scraper \<Rightarrow> scraper \<Rightarrow> bool" where
  \<comment> \<open>nothing a page fetch writes has changed\<close>
  "same_counters s s' =
     (consecutive_failures s' = consecutive_failures s
      \<and> domain_counters s' = domain_counters s
      \<and> config s' = config s
      \<and> page_events (trace s') = page_events (trace s)
      \<and> pages_requested (trace s') = pages_requested (trace s)
      \<and> backoffs (trace s') = backoffs (trace s))"

definition external_href :: "string \<Rightarrow> bool" where
  "external_href href = (href \<noteq> [] \<and> \<not> startswith href ''#'' \<and> \<not> startswith href ''/'')"

definition kept :: "pylib \<Rightarrow> string \<Rightarrow> nat \<times> container \<Rightarrow> article option" where
  \<comment> \<open>the record a container at a position of the deduplicated list contributes, if any\<close>
  "kept L page_url ic =
     (case parse_article_container L (snd ic) page_url (fst ic) of
        Inr (Some a) \<Rightarrow> Some a
      | _ \<Rightarrow> None)"

definition without_dates :: "article \<Rightarrow> article" where
  \<comment> \<open>a record as the Lambda handler builds it\<close>
  "without_dates a = a\<lparr>date := None, category := None, reading_time := None\<rparr>"

definition lambda_result :: "page_result \<Rightarrow> page_result" where
  \<comment> \<open>a page result as the Lambda scraper builds it\<close>
  "lambda_result d = d\<lparr>articles := map without_dates (articles d)\<rparr>"

section \<open>Concrete inputs\<close>

text \<open>
  A stand-in for the libraries, used only to run the model on the concrete inputs below.
  On those inputs \<open>urljoin\<close>, \<open>urlparse\<close> and \<open>strftime\<close> return what Python returns
  (absolute \<open>scheme://host/path\<close> URLs, root-relative or absolute links, days of
  January 2025); the hash is a constant of the right length.
\<close>

definition url_scheme :: "string \<Rightarrow> string" where
  "url_scheme u = takeWhile (\<lambda>c. c \<noteq> CHR '':'') u"

definition url_netloc :: "string \<Rightarrow> string" where
  "url_netloc u = takeWhile (\<lambda>c. c \<noteq> CHR ''/'') (drop (length (url_scheme u) + 3) u)"

definition pad2 :: "nat \<Rightarrow> string" where
  "pad2 n = (if n < 10 then ''0'' @ str_nat n else str_nat n)"

definition news_url :: string where
  "news_url = ''https://x.test/news''"

definition date_template :: string where
  "date_template = ''https://x.test/{YYYY-MM-DD}''"

definition six_days :: "int list" where
  \<comment> \<open>1 to 6 January 2025\<close>
  "six_days = [739252, 739253, 739254, 739255, 739256, 739257]"

definition blank :: container where
  "blank = \<lparr>markup = [], heading_texts = [], hrefs = [], img = None, desc_texts = [],
            p_texts = [], date_span_texts = [], text_content = [], text_nodes = []\<rparr>"

definition short_card :: container where
  \<comment> \<open>its only heading has exactly 10 characters once trimmed\<close>
  "short_card = blank\<lparr>markup := ''<div class=item><h3> 0123456789 </h3></div>'',
                       heading_texts := ['' 0123456789 '']\<rparr>"

definition titled_card :: container where
  "titled_card = blank\<lparr>markup := ''<article><h2>Hi</h2><h3>0123456789a</h3></article>'',
                        heading_texts := [''  Hi  '', ''0123456789'', '' 0123456789a '',
                                          ''A later and longer heading''],
                        hrefs := [''#top'', [], ''/about'', ''https://y.test/story'', ''/later'']\<rparr>"

definition titled_twin :: container where
  \<comment> \<open>the title of \<open>titled_card\<close>, everything else different\<close>
  "titled_twin = titled_card\<lparr>markup := ''<div class=story><h4>0123456789a</h4></div>'',
                             heading_texts := [''0123456789a''],
                             hrefs := [''/elsewhere'']\<rparr>"

definition internal_card :: container where
  \<comment> \<open>every link is root-relative\<close>
  "internal_card = blank\<lparr>markup := ''<div class=post><h3>Only internal links</h3></div>'',
                          heading_texts := [''Only internal links''],
                          hrefs := [''/a'', ''/b'']\<rparr>"

definition orphan_card :: container where
  \<comment> \<open>a text node without a parent: \<open>elem.parent.name\<close> raises\<close>
  "orphan_card = blank\<lparr>markup := ''<div class=story><h3>A heading long enough</h3></div>'',
                        heading_texts := [''A heading long enough''],
                        text_nodes := [(None, ''detached'')]\<rparr>"

definition long_card :: "char \<Rightarrow> string \<Rightarrow> container" where
  \<comment> \<open>markup of 200 equal characters and a tail\<close>
  "long_card c tail = blank\<lparr>markup := replicate 200 c @ tail\<rparr>"

definition cards_page :: document where
  "cards_page = \<lparr>flex_divs = [short_card, titled_card], article_tags = [titled_card],
                 class_divs = [orphan_card, internal_card, short_card],
                 title_tag = Some '' TLDR ''\<rparr>"

definition untitled_page :: document where
  \<comment> \<open>candidates, none with a qualifying heading\<close>
  "untitled_page = \<lparr>flex_divs = [short_card], article_tags = [], class_divs = [short_card],
                    title_tag = None\<rparr>"

definition empty_page :: document where
  "empty_page = \<lparr>flex_divs = [], article_tags = [], class_divs = [], title_tag = None\<rparr>"

definition dedup_page :: document where
  \<comment> \<open>two candidates that differ only after their 200th character, and a third one\<close>
  "dedup_page = \<lparr>flex_divs = [long_card (CHR ''x'') ''first'', long_card (CHR ''x'') ''second''],
                 article_tags = [], class_divs = [long_card (CHR ''y'') ''first''],
                 title_tag = None\<rparr>"

definition example_lib :: pylib where
  "example_lib =
     \<lparr>urljoin = (\<lambda>base href. if startswith href ''/''
                                then url_scheme base @ ''://'' @ url_netloc base @ href
                                else href),
      urlparse_scheme = url_scheme,
      urlparse_netloc = url_netloc,
      md5_hexdigest = (\<lambda>s. replicate 32 (CHR ''0'')),
      minute_read = (\<lambda>s. None),
      BeautifulSoup = (\<lambda>content. if content = ''cards'' then cards_page else empty_page),
      robots_allows = (\<lambda>text agent u. \<not> contains text ''Disallow: /''),
      strftime_ymd = (\<lambda>d. (''2025'', ''01'', pad2 (nat (d - 739251)))),
      month_day = (\<lambda>d. (1, nat (d - 739251)))\<rparr>"

definition card_record :: "pylib \<Rightarrow> string \<Rightarrow> nat \<Rightarrow> string \<Rightarrow> string option \<Rightarrow> article" where
  \<comment> \<open>the record of a card that has only headings and links\<close>
  "card_record L u i t l =
     \<lparr>record_id = generate_article_id L u t i, title = t, link = l, description = None,
      body = [], image_url = None, date = None, category = None,
      reading_time = map_option (\<lambda>g. g @ '' minute read'') (minute_read L []),
      source_page = u, extraction_index = i\<rparr>"

definition default_config :: scraping_config where
  \<comment> \<open>the defaults of \<open>ScrapingConfig\<close>\<close>
  "default_config =
     \<lparr>user_agent = ''TLDR-Scraper/1.0'', max_retries = 3, respect_robots_txt = True,
      max_pages_per_domain = 100, save_robots_txt = True, skip_weekends = False,
      max_consecutive_failures = 5\<rparr>"

definition open_config :: scraping_config where
  "open_config = default_config\<lparr>respect_robots_txt := False\<rparr>"

definition new_scraper :: "scraping_config \<Rightarrow> scraper" where
  \<comment> \<open>\<open>ResponsibleScraper.__init__\<close>\<close>
  "new_scraper cfg =
     \<lparr>config = cfg, robot_parsers = Map.empty, robots_content = Map.empty,
      saved_robots = {}, domain_counters = Map.empty, consecutive_failures = 0,
      clock = 0, trace = []\<rparr>"

definition full_scraper :: scraper where
  \<comment> \<open>a scraper that has fetched its 100 pages of x.test\<close>
  "full_scraper = (new_scraper default_config)\<lparr>domain_counters := [''x.test'' \<mapsto> 100]\<rparr>"

definition tripped_scraper :: scraper where
  \<comment> \<open>a scraper whose last five fetches failed\<close>
  "tripped_scraper = (new_scraper open_config)\<lparr>consecutive_failures := 5\<rparr>"

definition dead_world :: world where
  \<comment> \<open>every request raises\<close>
  "dead_world n u = Raised"

definition robots_503_world :: world where
  \<comment> \<open>robots.txt answers 503, every page answers 200\<close>
  "robots_503_world n u =
     (if u = ''https://x.test/robots.txt'' then Returned 503 [] else Returned 200 ''cards'')"

definition disallow_world :: world where
  \<comment> \<open>robots.txt answers 200 and disallows everything\<close>
  "disallow_world n u =
     (if u = ''https://x.test/robots.txt''
      then Returned 200 (''User-agent: *'' @ [CHR 0x0A] @ ''Disallow: /'')
      else Returned 200 ''cards'')"

definition flaky_world :: world where
  \<comment> \<open>the first two requests of the run fail with 500, the later ones answer 200\<close>
  "flaky_world n u = (if n < 2 then Returned 500 [] else Returned 200 ''cards'')"

definition flaky_result :: page_result where
  \<comment> \<open>what \<open>flaky_world\<close> serves once it answers\<close>
  "flaky_result =
     \<lparr>p_url = news_url, p_title = ''TLDR'',
      articles = extract_articles example_lib cards_page news_url,
      article_count = 2, status_code = 200, scraped_date = None\<rparr>"

section \<open>Properties\<close>

subsection \<open>Deduplication\<close>

lemma unique_loop_acc: "unique_loop cs seen acc = acc @ unique_loop cs seen []"
proof (induction cs arbitrary: seen acc)
  case Nil
  then show ?case by simp
next
  case (Cons c cs)
  show ?case
    using Cons.IH [of "insert (fingerprint c) seen" "acc @ [c]"]
          Cons.IH [of "insert (fingerprint c) seen" "[c]"]
          Cons.IH [of seen acc]
    by (simp add: Let_def)
qed

lemma unique_loop_snoc:
  "unique_loop (cs @ [c]) seen acc =
     (if fingerprint c \<in> seen \<union> fingerprint ` set cs
      then unique_loop cs seen acc else unique_loop cs seen acc @ [c])"
proof (induction cs arbitrary: seen acc)
  case Nil
  then show ?case by (simp add: Let_def)
next
  case (Cons a cs)
  show ?case
    using Cons.IH [of "insert (fingerprint a) seen" "acc @ [a]"] Cons.IH [of seen acc]
    by (auto simp: Let_def)
qed

lemma nths_agree:
  assumes "\<And>i. i < length xs \<Longrightarrow> (i \<in> A) = (i \<in> B)"
  shows "nths xs A = nths xs B"
proof -
  have "filter (\<lambda>p. snd p \<in> A) (zip xs [0..<length xs])
        = filter (\<lambda>p. snd p \<in> B) (zip xs [0..<length xs])"
    by (rule filter_cong) (auto simp: set_zip assms)
  then show ?thesis by (simp add: nths_def)
qed

lemma unique_loop_nths:
  "unique_loop cs {} [] = nths cs {i. \<forall>j<i. fingerprint (cs ! j) \<noteq> fingerprint (cs ! i)}"
proof (induction cs rule: rev_induct)
  case Nil
  then show ?case by simp
next
  case (snoc c cs)
  let ?P = "\<lambda>xs i. \<forall>j<i. fingerprint (xs ! j) \<noteq> fingerprint (xs ! i)"
  have old: "nths cs {i. ?P (cs @ [c]) i} = nths cs {i. ?P cs i}"
    by (rule nths_agree) (simp add: nth_append)
  have last: "?P (cs @ [c]) (length cs) \<longleftrightarrow> fingerprint c \<notin> fingerprint ` set cs"
  proof -
    have "?P (cs @ [c]) (length cs) \<longleftrightarrow> (\<forall>j<length cs. fingerprint (cs ! j) \<noteq> fingerprint c)"
      by (simp add: nth_append)
    also have "\<dots> \<longleftrightarrow> (\<forall>x\<in>set cs. fingerprint x \<noteq> fingerprint c)"
      by (simp add: all_set_conv_all_nth)
    also have "\<dots> \<longleftrightarrow> fingerprint c \<notin> fingerprint ` set cs"
      by (metis imageE imageI)
    finally show ?thesis .
  qed
  have "nths (cs @ [c]) {i. ?P (cs @ [c]) i}
        = nths cs {i. ?P cs i} @ (if ?P (cs @ [c]) (length cs) then [c] else [])"
    by (simp add: nths_append old nths_Cons del: all_simps)
  then show ?case
    using snoc.IH last by (simp add: unique_loop_snoc)
qed

lemma unique_loop_pair:
  "unique_loop [a, b] {} [] = (if fingerprint a = fingerprint b then [a] else [a, b])"
  by (auto simp: Let_def)

text \<open>
  C6. Deduplication keeps a candidate exactly when no earlier candidate has the same
  fingerprint, the first 200 characters of its markup, and keeps the survivors in discovery
  order. Of two candidates that agree on the first 200 characters only the earlier one
  survives; two that differ there both survive.
\<close>

theorem dedup_keeps_first_fingerprint:
  "unique_containers soup =
     nths (article_containers soup)
       {i. \<forall>j<i. take 200 (markup (article_containers soup ! j))
                  \<noteq> take 200 (markup (article_containers soup ! i))}
   \<and> unique_loop [a, b] {} [] = (if take 200 (markup a) = take 200 (markup b) then [a] else [a, b])"
  using unique_loop_nths [of "article_containers soup"] unique_loop_pair [of a b]
  by (simp only: unique_containers_def fingerprint_def)

theorem dedup_keeps_first_fingerprint_witness:
  "unique_containers dedup_page =
     nths (article_containers dedup_page)
       {i. \<forall>j<i. take 200 (markup (article_containers dedup_page ! j))
                  \<noteq> take 200 (markup (article_containers dedup_page ! i))}
   \<and> unique_containers dedup_page = [long_card (CHR ''x'') ''first'', long_card (CHR ''y'') ''first'']
   \<and> markup (long_card (CHR ''x'') ''first'') \<noteq> markup (long_card (CHR ''x'') ''second'')
   \<and> unique_loop [long_card (CHR ''x'') ''first'', long_card (CHR ''x'') ''second''] {} []
       = [long_card (CHR ''x'') ''first'']
   \<and> unique_loop [long_card (CHR ''x'') ''first'', long_card (CHR ''y'') ''first''] {} []
       = [long_card (CHR ''x'') ''first'', long_card (CHR ''y'') ''first'']"
proof -
  have ev: "unique_containers dedup_page
            = [long_card (CHR ''x'') ''first'', long_card (CHR ''y'') ''first'']"
    by (simp add: unique_containers_def article_containers_def dedup_page_def fingerprint_def
        long_card_def blank_def)
  have ne: "markup (long_card (CHR ''x'') ''first'') \<noteq> markup (long_card (CHR ''x'') ''second'')"
    by (simp add: long_card_def blank_def)
  have same: "take 200 (markup (long_card (CHR ''x'') ''first''))
              = take 200 (markup (long_card (CHR ''x'') ''second''))"
    by (simp add: long_card_def blank_def)
  have diff: "take 200 (markup (long_card (CHR ''x'') ''first''))
              \<noteq> take 200 (markup (long_card (CHR ''y'') ''first''))"
    by (simp add: long_card_def blank_def)
  note xx = dedup_keeps_first_fingerprint
              [of dedup_page "long_card (CHR ''x'') ''first''" "long_card (CHR ''x'') ''second''"]
  note xy = dedup_keeps_first_fingerprint
              [of dedup_page "long_card (CHR ''x'') ''first''" "long_card (CHR ''y'') ''first''"]
  have p1: "unique_containers dedup_page =
     nths (article_containers dedup_page)
       {i. \<forall>j<i. take 200 (markup (article_containers dedup_page ! j))
                  \<noteq> take 200 (markup (article_containers dedup_page ! i))}"
    using xx by (rule conjunct1)
  have p2: "unique_loop [long_card (CHR ''x'') ''first'', long_card (CHR ''x'') ''second''] {} []
       = [long_card (CHR ''x'') ''first'']"
    using xx [THEN conjunct2] same by simp
  have p3: "unique_loop [long_card (CHR ''x'') ''first'', long_card (CHR ''y'') ''first''] {} []
       = [long_card (CHR ''x'') ''first'', long_card (CHR ''y'') ''first'']"
    using xy [THEN conjunct2] diff by simp
  show ?thesis
    using p1 ev ne p2 p3 by (intro conjI)
qed

subsection \<open>Parsing one container\<close>

lemma find_title_find:
  "find_title hs = List.find (\<lambda>t. 10 < length t) (map strip hs)"
  by (induction hs) (auto simp: Let_def)

lemma find_title_long: "find_title hs = Some t \<Longrightarrow> 10 < length t"
  by (induction hs) (auto simp: Let_def split: if_splits)

lemma parse_fields:
  assumes "parse_article_container L c u i = Inr (Some a)"
  shows "find_title (heading_texts c) = Some (title a)"
    and "link a = find_link L u (hrefs c) None"
    and "record_id a = generate_article_id L u (title a) i"
    and "extraction_index a = i"
    and "source_page a = u"
  using assms
  by (auto simp: parse_article_container_def Let_def
           split: option.splits sum.splits prod.splits)

lemma parse_untitled:
  "find_title (heading_texts c) = None \<Longrightarrow> parse_article_container L c u i = Inr None"
  by (simp add: parse_article_container_def)

lemma l_parse_eq:
  "l_parse_article_container L c u i =
     map_sum id (map_option without_dates) (parse_article_container L c u i)"
  by (auto simp: l_parse_article_container_def parse_article_container_def Let_def
        without_dates_def split: option.splits sum.splits prod.splits)

lemma parse_title_nonempty:
  "parse_article_container L c u i = Inr (Some a) \<Longrightarrow> title a \<noteq> []"
  using parse_fields(1) [of L c u i a] find_title_long [of "heading_texts c" "title a"]
  by auto

lemma articles_loop_kept:
  "articles_loop L u ics acc = acc @ List.map_filter (kept L u) ics"
proof (induction ics arbitrary: acc)
  case Nil
  then show ?case by simp
next
  case (Cons ic ics)
  obtain i c where ic: "ic = (i, c)" by (cases ic)
  show ?case
  proof (cases "parse_article_container L c u i")
    case (Inl e)
    then show ?thesis using Cons.IH ic by (simp add: kept_def)
  next
    case (Inr r)
    show ?thesis
    proof (cases r)
      case None
      then show ?thesis using Cons.IH ic Inr by (simp add: kept_def)
    next
      case (Some a)
      then have "title a \<noteq> []" using Inr parse_title_nonempty by blast
      then show ?thesis using Cons.IH ic Inr Some by (simp add: kept_def)
    qed
  qed
qed

lemma extract_articles_kept:
  "extract_articles L soup u = List.map_filter (kept L u) (enumerate 0 (unique_containers soup))"
  by (simp add: extract_articles_def articles_loop_kept)

lemma kept_Some:
  "kept L u ic = Some a \<longleftrightarrow> parse_article_container L (snd ic) u (fst ic) = Inr (Some a)"
  by (auto simp: kept_def split: sum.splits option.splits)

lemma kept_index: "kept L u ic = Some a \<Longrightarrow> extraction_index a = fst ic"
  by (simp add: kept_Some parse_fields(4))

lemma index_map_filter:
  "map extraction_index (List.map_filter (kept L u) ics)
   = map fst (filter (\<lambda>ic. kept L u ic \<noteq> None) ics)"
  by (induction ics) (auto simp: kept_index split: option.splits)

lemma extract_indices_increasing:
  "sorted_wrt (<) (map extraction_index (extract_articles L soup u))"
proof -
  have "sorted_wrt (<) (map fst (enumerate 0 (unique_containers soup)))"
    by simp
  then have "sorted_wrt (\<lambda>x y. fst x < fst y) (enumerate 0 (unique_containers soup))"
    by (simp only: sorted_wrt_map)
  then have "sorted_wrt (\<lambda>x y. fst x < fst y)
               (filter (\<lambda>ic. kept L u ic \<noteq> None) (enumerate 0 (unique_containers soup)))"
    by (rule sorted_wrt_filter)
  then show ?thesis
    by (simp only: extract_articles_kept index_map_filter sorted_wrt_map)
qed

lemma extract_member:
  assumes "a \<in> set (extract_articles L soup u)"
  shows "extraction_index a < length (unique_containers soup)
         \<and> parse_article_container L (unique_containers soup ! extraction_index a) u
              (extraction_index a) = Inr (Some a)"
proof -
  from assms obtain ic where ic: "ic \<in> set (enumerate 0 (unique_containers soup))"
      and k: "kept L u ic = Some a"
    by (auto simp: extract_articles_kept List.map_filter_def)
  from ic have "fst ic < length (unique_containers soup)"
      and "unique_containers soup ! fst ic = snd ic"
    by (simp_all add: in_set_enumerate_eq)
  moreover from k have "extraction_index a = fst ic" by (rule kept_index)
  ultimately show ?thesis using k by (simp add: kept_Some)
qed

lemma l_articles_loop_eq:
  "l_articles_loop L u ics (map without_dates acc) = map without_dates (articles_loop L u ics acc)"
proof (induction ics arbitrary: acc)
  case Nil
  then show ?case by simp
next
  case (Cons ic ics)
  obtain i c where ic: "ic = (i, c)" by (cases ic)
  show ?case
  proof (cases "parse_article_container L c u i")
    case (Inl e)
    then show ?thesis using Cons.IH ic by (simp add: l_parse_eq)
  next
    case (Inr r)
    show ?thesis
    proof (cases r)
      case None
      then show ?thesis using Cons.IH ic Inr by (simp add: l_parse_eq)
    next
      case (Some a)
      then show ?thesis
        using Cons.IH [of "acc @ [a]"] Cons.IH [of acc] ic Inr
        by (simp add: l_parse_eq without_dates_def)
    qed
  qed
qed

lemma l_extract_articles_eq:
  "l_extract_articles L soup u = map without_dates (extract_articles L soup u)"
  using l_articles_loop_eq [of L u _ "[]"]
  by (simp add: l_extract_articles_def extract_articles_def)

lemma title_without_dates [simp]: "title (without_dates a) = title a"
  and link_without_dates [simp]: "link (without_dates a) = link a"
  and record_id_without_dates [simp]: "record_id (without_dates a) = record_id a"
  and index_without_dates [simp]: "extraction_index (without_dates a) = extraction_index a"
  by (simp_all add: without_dates_def)

lemma l_parse_Some:
  "l_parse_article_container L c u i = Inr (Some b)
   \<longleftrightarrow> (\<exists>a. parse_article_container L c u i = Inr (Some a) \<and> b = without_dates a)"
  by (cases "parse_article_container L c u i") (auto simp: l_parse_eq map_option_case split: option.splits)

lemma l_parse_untitled:
  "find_title (heading_texts c) = None \<Longrightarrow> l_parse_article_container L c u i = Inr None"
  by (simp add: l_parse_eq parse_untitled)

lemma find_title_boundary:
  "length (strip h) = 10 \<Longrightarrow> find_title [h] = None"
  "length (strip h) = 11 \<Longrightarrow> find_title [h] = Some (strip h)"
  by (auto simp: Let_def)

lemma parse_titled:
  assumes "find_title (heading_texts c) = Some t"
  shows "(\<exists>e. parse_article_container L c u i = Inl e \<and> l_parse_article_container L c u i = Inl e)
         \<or> (\<exists>a. parse_article_container L c u i = Inr (Some a) \<and> title a = t
                \<and> l_parse_article_container L c u i = Inr (Some (without_dates a)))"
proof (cases "parse_article_container L c u i")
  case (Inl e)
  then show ?thesis by (simp add: l_parse_eq)
next
  case (Inr r)
  then obtain a where r: "r = Some a"
    using assms
    by (auto simp: parse_article_container_def Let_def split: sum.splits prod.splits)
  then have "title a = t"
    using parse_fields(1) [of L c u i a] Inr assms by simp
  then show ?thesis
    using Inr r by (simp add: l_parse_eq)
qed

lemma extract_has:
  assumes k: "k < length (unique_containers soup)"
    and p: "parse_article_container L (unique_containers soup ! k) u k = Inr (Some a)"
  shows "a \<in> set (extract_articles L soup u)"
proof -
  have "(k, unique_containers soup ! k) \<in> set (enumerate 0 (unique_containers soup))"
    using k by (simp add: in_set_enumerate_eq)
  moreover have "kept L u (k, unique_containers soup ! k) = Some a"
    using p by (simp add: kept_Some)
  ultimately show ?thesis
    by (force simp: extract_articles_kept List.map_filter_def)
qed

text \<open>
  C5. The title of a container is the first of its headings, in document order, whose
  trimmed text is longer than 10 characters: a heading of exactly 10 characters is passed
  over, one of 11 is taken. A container without such a heading yields no record. A container
  with such a heading yields a record with that title, unless a later step of the parse
  raises, in which case the loop skips the container. The parser of the Lambda file returns
  what the parser of \<open>webscraper.py\<close> returns with the date, category and reading time
  left out. Every record of the result carries the title found in the container at its
  index, and every container of the deduplicated list that parses to a record has that
  record in the result.
\<close>

theorem title_is_first_heading_over_10:
  "find_title (heading_texts c) = List.find (\<lambda>t. 10 < length t) (map strip (heading_texts c))
   \<and> (\<forall>a. parse_article_container L c u i = Inr (Some a)
            \<or> l_parse_article_container L c u i = Inr (Some a)
         \<longrightarrow> find_title (heading_texts c) = Some (title a))
   \<and> (find_title (heading_texts c0) = None
         \<longrightarrow> parse_article_container L c0 u i = Inr None
             \<and> l_parse_article_container L c0 u i = Inr None)
   \<and> (\<forall>a\<in>set (extract_articles L soup u) \<union> set (l_extract_articles L soup u).
         find_title (heading_texts (unique_containers soup ! extraction_index a)) = Some (title a))
   \<and> (length (strip h10) = 10 \<longrightarrow> find_title [h10] = None)
   \<and> (length (strip h11) = 11 \<longrightarrow> find_title [h11] = Some (strip h11))
   \<and> l_parse_article_container L c u i
       = map_sum id (map_option without_dates) (parse_article_container L c u i)
   \<and> l_extract_articles L soup u = map without_dates (extract_articles L soup u)
   \<and> (find_title (heading_texts c1) = Some t1
         \<longrightarrow> (\<exists>e. parse_article_container L c1 u i = Inl e
                   \<and> l_parse_article_container L c1 u i = Inl e)
             \<or> (\<exists>a. parse_article_container L c1 u i = Inr (Some a) \<and> title a = t1
                    \<and> l_parse_article_container L c1 u i = Inr (Some (without_dates a))))
   \<and> (heading_texts c10 = [h10] \<and> length (strip h10) = 10
         \<longrightarrow> parse_article_container L c10 u i = Inr None
             \<and> l_parse_article_container L c10 u i = Inr None)
   \<and> (heading_texts c11 = [h11] \<and> length (strip h11) = 11
         \<longrightarrow> (\<exists>e. parse_article_container L c11 u i = Inl e
                   \<and> l_parse_article_container L c11 u i = Inl e)
             \<or> (\<exists>a. parse_article_container L c11 u i = Inr (Some a) \<and> title a = strip h11
                    \<and> l_parse_article_container L c11 u i = Inr (Some (without_dates a))))
   \<and> (k < length (unique_containers soup)
        \<and> parse_article_container L (unique_containers soup ! k) u k = Inr (Some b)
         \<longrightarrow> b \<in> set (extract_articles L soup u)
             \<and> without_dates b \<in> set (l_extract_articles L soup u)
             \<and> find_title (heading_texts (unique_containers soup ! k)) = Some (title b))"
proof (intro conjI)
  show "find_title (heading_texts c) = List.find (\<lambda>t. 10 < length t) (map strip (heading_texts c))"
    by (rule find_title_find)
  show "\<forall>a. parse_article_container L c u i = Inr (Some a)
            \<or> l_parse_article_container L c u i = Inr (Some a)
         \<longrightarrow> find_title (heading_texts c) = Some (title a)"
    by (auto simp: l_parse_Some parse_fields(1))
  show "find_title (heading_texts c0) = None
         \<longrightarrow> parse_article_container L c0 u i = Inr None
             \<and> l_parse_article_container L c0 u i = Inr None"
    by (simp add: parse_untitled l_parse_untitled)
  show "\<forall>a\<in>set (extract_articles L soup u) \<union> set (l_extract_articles L soup u).
         find_title (heading_texts (unique_containers soup ! extraction_index a)) = Some (title a)"
  proof
    fix a
    assume "a \<in> set (extract_articles L soup u) \<union> set (l_extract_articles L soup u)"
    then obtain b where b: "b \<in> set (extract_articles L soup u)"
        and ab: "title a = title b" "extraction_index a = extraction_index b"
      by (auto simp: l_extract_articles_eq)
    from extract_member [OF b] parse_fields(1) ab
    show "find_title (heading_texts (unique_containers soup ! extraction_index a)) = Some (title a)"
      by metis
  qed
  show "length (strip h10) = 10 \<longrightarrow> find_title [h10] = None"
    using find_title_boundary(1) by blast
  show "length (strip h11) = 11 \<longrightarrow> find_title [h11] = Some (strip h11)"
    using find_title_boundary(2) by blast
  show "l_parse_article_container L c u i
       = map_sum id (map_option without_dates) (parse_article_container L c u i)"
    by (rule l_parse_eq)
  show "l_extract_articles L soup u = map without_dates (extract_articles L soup u)"
    by (rule l_extract_articles_eq)
  show "find_title (heading_texts c1) = Some t1
         \<longrightarrow> (\<exists>e. parse_article_container L c1 u i = Inl e
                   \<and> l_parse_article_container L c1 u i = Inl e)
             \<or> (\<exists>a. parse_article_container L c1 u i = Inr (Some a) \<and> title a = t1
                    \<and> l_parse_article_container L c1 u i = Inr (Some (without_dates a)))"
    using parse_titled by blast
  show "heading_texts c10 = [h10] \<and> length (strip h10) = 10
         \<longrightarrow> parse_article_container L c10 u i = Inr None
             \<and> l_parse_article_container L c10 u i = Inr None"
  proof
    assume h: "heading_texts c10 = [h10] \<and> length (strip h10) = 10"
    then have "find_title (heading_texts c10) = None"
      using find_title_boundary(1) [of h10] by simp
    then show "parse_article_container L c10 u i = Inr None
             \<and> l_parse_article_container L c10 u i = Inr None"
      by (simp add: parse_untitled l_parse_untitled)
  qed
  show "heading_texts c11 = [h11] \<and> length (strip h11) = 11
         \<longrightarrow> (\<exists>e. parse_article_container L c11 u i = Inl e
                   \<and> l_parse_article_container L c11 u i = Inl e)
             \<or> (\<exists>a. parse_article_container L c11 u i = Inr (Some a) \<and> title a = strip h11
                    \<and> l_parse_article_container L c11 u i = Inr (Some (without_dates a)))"
  proof
    assume h: "heading_texts c11 = [h11] \<and> length (strip h11) = 11"
    then have "find_title (heading_texts c11) = Some (strip h11)"
      using find_title_boundary(2) [of h11] by simp
    then show "(\<exists>e. parse_article_container L c11 u i = Inl e
                   \<and> l_parse_article_container L c11 u i = Inl e)
             \<or> (\<exists>a. parse_article_container L c11 u i = Inr (Some a) \<and> title a = strip h11
                    \<and> l_parse_article_container L c11 u i = Inr (Some (without_dates a)))"
      by (rule parse_titled)
  qed
  show "k < length (unique_containers soup)
        \<and> parse_article_container L (unique_containers soup ! k) u k = Inr (Some b)
         \<longrightarrow> b \<in> set (extract_articles L soup u)
             \<and> without_dates b \<in> set (l_extract_articles L soup u)
             \<and> find_title (heading_texts (unique_containers soup ! k)) = Some (title b)"
  proof
    assume h: "k < length (unique_containers soup)
        \<and> parse_article_container L (unique_containers soup ! k) u k = Inr (Some b)"
    then have "b \<in> set (extract_articles L soup u)"
      using extract_has by blast
    moreover from h have "find_title (heading_texts (unique_containers soup ! k)) = Some (title b)"
      using parse_fields(1) by blast
    ultimately show "b \<in> set (extract_articles L soup u)
             \<and> without_dates b \<in> set (l_extract_articles L soup u)
             \<and> find_title (heading_texts (unique_containers soup ! k)) = Some (title b)"
      by (simp add: l_extract_articles_eq)
  qed
qed

lemma strip_examples:
  "strip '' 0123456789 '' = ''0123456789''"
  "strip '' 0123456789a '' = ''0123456789a''"
  "strip ''  Hi  '' = ''Hi''"
  "strip ''0123456789'' = ''0123456789''"
  by (simp_all add: strip_def isspace_def)

lemma cards_unique:
  "unique_containers cards_page = [short_card, titled_card, orphan_card, internal_card]"
  by (simp add: unique_containers_def article_containers_def cards_page_def fingerprint_def
      short_card_def titled_card_def orphan_card_def internal_card_def blank_def)

lemma cards_titles:
  "find_title (heading_texts short_card) = None"
  "find_title (heading_texts titled_card) = Some ''0123456789a''"
  "find_title (heading_texts orphan_card) = Some ''A heading long enough''"
  "find_title (heading_texts internal_card) = Some ''Only internal links''"
  by (simp_all add: short_card_def titled_card_def orphan_card_def internal_card_def blank_def
      strip_def isspace_def)

lemma cards_parse:
  "parse_article_container L short_card u i = Inr None"
  "parse_article_container L orphan_card u i = Inl AttributeError"
  "parse_article_container L titled_card u i
     = Inr (Some (card_record L u i ''0123456789a'' (Some ''https://y.test/story'')))"
  "parse_article_container L internal_card u i
     = Inr (Some (card_record L u i ''Only internal links'' (Some (urljoin L u ''/b''))))"
  by (simp_all add: parse_article_container_def cards_titles Let_def card_record_def
         find_image_def find_description_def)
     (simp_all add: short_card_def titled_card_def orphan_card_def internal_card_def blank_def
         startswith_def)

lemma cards_extract:
  "extract_articles L cards_page u
     = [card_record L u 1 ''0123456789a'' (Some ''https://y.test/story''),
        card_record L u 3 ''Only internal links'' (Some (urljoin L u ''/b''))]"
  by (simp add: extract_articles_kept cards_unique kept_def cards_parse eval_nat_numeral)


lemma twin_parse:
  "find_title (heading_texts titled_twin) = Some ''0123456789a''"
  "parse_article_container L titled_twin u i
     = Inr (Some (card_record L u i ''0123456789a'' (Some (urljoin L u ''/elsewhere''))))"
  by (simp_all add: parse_article_container_def Let_def card_record_def
         find_image_def find_description_def titled_twin_def titled_card_def blank_def
         strip_def isspace_def startswith_def)

theorem title_is_first_heading_over_10_witness:
  "find_title (heading_texts titled_card) = Some ''0123456789a''
   \<and> parse_article_container example_lib titled_card news_url 1
       = Inr (Some (card_record example_lib news_url 1 ''0123456789a'' (Some ''https://y.test/story'')))
   \<and> l_parse_article_container example_lib titled_card news_url 1
       = Inr (Some (without_dates
           (card_record example_lib news_url 1 ''0123456789a'' (Some ''https://y.test/story''))))
   \<and> find_title (heading_texts short_card) = None
   \<and> parse_article_container example_lib short_card news_url 1 = Inr None
   \<and> l_parse_article_container example_lib short_card news_url 1 = Inr None
   \<and> map title (extract_articles example_lib cards_page news_url)
       = [''0123456789a'', ''Only internal links'']
   \<and> map title (l_extract_articles example_lib cards_page news_url)
       = [''0123456789a'', ''Only internal links'']
   \<and> length (strip '' 0123456789 '') = 10 \<and> find_title ['' 0123456789 ''] = None
   \<and> length (strip '' 0123456789a '') = 11
   \<and> find_title ['' 0123456789a ''] = Some ''0123456789a''
   \<and> heading_texts short_card = ['' 0123456789 '']
   \<and> heading_texts titled_twin = [''0123456789a'']
   \<and> length (strip ''0123456789a'') = 11
   \<and> parse_article_container example_lib titled_twin news_url 2
       = Inr (Some (card_record example_lib news_url 2 ''0123456789a''
                      (Some ''https://x.test/elsewhere'')))
   \<and> l_parse_article_container example_lib titled_twin news_url 2
       = Inr (Some (without_dates (card_record example_lib news_url 2 ''0123456789a''
                      (Some ''https://x.test/elsewhere''))))
   \<and> title (without_dates (card_record example_lib news_url 2 ''0123456789a''
                      (Some ''https://x.test/elsewhere''))) = ''0123456789a''
   \<and> unique_containers cards_page ! 1 = titled_card
   \<and> without_dates (card_record example_lib news_url 1 ''0123456789a'' (Some ''https://y.test/story''))
       \<in> set (l_extract_articles example_lib cards_page news_url)"
proof -
  let ?r1 = "card_record example_lib news_url 1 ''0123456789a'' (Some ''https://y.test/story'')"
  let ?r2 = "card_record example_lib news_url 2 ''0123456789a'' (Some ''https://x.test/elsewhere'')"
  note t = title_is_first_heading_over_10
             [where c = titled_card and L = example_lib and u = news_url and i = 1
                and ?c0.0 = short_card and soup = cards_page and ?h10.0 = "'' 0123456789 ''"
                and ?h11.0 = "'' 0123456789a ''" and ?c10.0 = short_card and k = 1 and b = ?r1]
  note t2 = title_is_first_heading_over_10
             [where L = example_lib and u = news_url and i = 2
                and ?h11.0 = "''0123456789a''" and ?c11.0 = titled_twin]
  have p: "parse_article_container example_lib titled_card news_url 1 = Inr (Some ?r1)"
    by (rule cards_parse)
  have "find_title (heading_texts titled_card) = Some (title ?r1)"
    using t [THEN conjunct2, THEN conjunct1] p by blast
  then have a: "find_title (heading_texts titled_card) = Some ''0123456789a''"
    by (simp add: card_record_def)
  have lp: "l_parse_article_container example_lib titled_card news_url 1
          = Inr (Some (without_dates ?r1))"
    unfolding t [THEN conjunct2, THEN conjunct2, THEN conjunct2, THEN conjunct2, THEN conjunct2, THEN conjunct2, THEN conjunct1] p
    by simp
  have n: "find_title (heading_texts short_card) = None"
    by (rule cards_titles)
  have b: "parse_article_container example_lib short_card news_url 1 = Inr None
           \<and> l_parse_article_container example_lib short_card news_url 1 = Inr None"
    using t [THEN conjunct2, THEN conjunct2, THEN conjunct1] n by blast
  have e: "map title (extract_articles example_lib cards_page news_url)
           = [''0123456789a'', ''Only internal links'']"
    by (simp add: cards_extract card_record_def)
  have le: "map title (l_extract_articles example_lib cards_page news_url)
           = [''0123456789a'', ''Only internal links'']"
    using t [THEN conjunct2, THEN conjunct2, THEN conjunct2, THEN conjunct2, THEN conjunct2, THEN conjunct2, THEN conjunct2, THEN conjunct1] e by (simp add: comp_def)
  have l10: "length (strip '' 0123456789 '') = 10"
    and l11: "length (strip '' 0123456789a '') = 11"
    and l11': "length (strip ''0123456789a'') = 11"
    by (simp_all add: strip_def isspace_def)
  have f10: "find_title ['' 0123456789 ''] = None"
    using t [THEN conjunct2, THEN conjunct2, THEN conjunct2, THEN conjunct2, THEN conjunct1] l10 by blast
  have "find_title ['' 0123456789a ''] = Some (strip '' 0123456789a '')"
    using t [THEN conjunct2, THEN conjunct2, THEN conjunct2, THEN conjunct2, THEN conjunct2, THEN conjunct1] l11 by blast
  then have f11: "find_title ['' 0123456789a ''] = Some ''0123456789a''"
    by (simp add: strip_examples)
  have hs: "heading_texts short_card = ['' 0123456789 '']"
    and ht: "heading_texts titled_twin = [''0123456789a'']"
    by (simp_all add: short_card_def titled_twin_def titled_card_def blank_def)
  have p2: "parse_article_container example_lib titled_twin news_url 2 = Inr (Some ?r2)"
    by (simp add: twin_parse)
       (simp add: example_lib_def news_url_def url_scheme_def url_netloc_def startswith_def)
  have "(\<exists>e. parse_article_container example_lib titled_twin news_url 2 = Inl e
                   \<and> l_parse_article_container example_lib titled_twin news_url 2 = Inl e)
             \<or> (\<exists>a. parse_article_container example_lib titled_twin news_url 2 = Inr (Some a)
                    \<and> title a = strip ''0123456789a''
                    \<and> l_parse_article_container example_lib titled_twin news_url 2
                        = Inr (Some (without_dates a)))"
    using t2 [THEN conjunct2, THEN conjunct2, THEN conjunct2, THEN conjunct2, THEN conjunct2, THEN conjunct2, THEN conjunct2, THEN conjunct2, THEN conjunct2, THEN conjunct2, THEN conjunct1] ht l11' by blast
  then have lp2: "l_parse_article_container example_lib titled_twin news_url 2
                    = Inr (Some (without_dates ?r2))"
    by (simp add: p2)
  have tt: "title (without_dates ?r2) = ''0123456789a''"
    by (simp add: card_record_def)
  have u1: "unique_containers cards_page ! 1 = titled_card"
    by (simp add: cards_unique)
  have k1: "1 < length (unique_containers cards_page)"
    by (simp add: cards_unique)
  have m: "without_dates ?r1 \<in> set (l_extract_articles example_lib cards_page news_url)"
    using t [THEN conjunct2, THEN conjunct2, THEN conjunct2, THEN conjunct2, THEN conjunct2, THEN conjunct2, THEN conjunct2, THEN conjunct2, THEN conjunct2, THEN conjunct2, THEN conjunct2] k1 u1 p by simp
  show ?thesis
    using a p lp n b e le l10 f10 l11 f11 hs ht l11' p2 lp2 tt u1 m by (intro conjI) blast+
qed

text \<open>
  C10. A record's extraction index is the position of its container in the deduplicated
  list: the container there parses to this record. The indices of the returned records
  increase strictly; they can skip positions, so an index is at least the record's
  position in the result and can exceed it.
\<close>

theorem extraction_index_is_container_position:
  "sorted_wrt (<) (map extraction_index (extract_articles L soup u))
   \<and> (\<forall>a\<in>set (extract_articles L soup u).
         extraction_index a < length (unique_containers soup)
         \<and> parse_article_container L (unique_containers soup ! extraction_index a) u
              (extraction_index a) = Inr (Some a))
   \<and> (\<forall>k<length (extract_articles L soup u).
         k \<le> extraction_index (extract_articles L soup u ! k))
   \<and> map extraction_index (l_extract_articles L soup u)
       = map extraction_index (extract_articles L soup u)"
proof (intro conjI)
  show inc: "sorted_wrt (<) (map extraction_index (extract_articles L soup u))"
    by (rule extract_indices_increasing)
  show "\<forall>a\<in>set (extract_articles L soup u).
         extraction_index a < length (unique_containers soup)
         \<and> parse_article_container L (unique_containers soup ! extraction_index a) u
              (extraction_index a) = Inr (Some a)"
    using extract_member by blast
  show "\<forall>k<length (extract_articles L soup u).
         k \<le> extraction_index (extract_articles L soup u ! k)"
  proof (intro allI impI)
    fix k
    assume k: "k < length (extract_articles L soup u)"
    then have "k \<le> map extraction_index (extract_articles L soup u) ! k"
      using sorted_wrt_less_idx [OF inc, of k] by simp
    then show "k \<le> extraction_index (extract_articles L soup u ! k)"
      using k by simp
  qed
  show "map extraction_index (l_extract_articles L soup u)
       = map extraction_index (extract_articles L soup u)"
    by (simp add: l_extract_articles_eq)
qed

theorem extraction_index_is_container_position_witness:
  "unique_containers cards_page = [short_card, titled_card, orphan_card, internal_card]
   \<and> map extraction_index (extract_articles example_lib cards_page news_url) = [1, 3]
   \<and> sorted_wrt (<) (map extraction_index (extract_articles example_lib cards_page news_url))
   \<and> (0::nat) < length (extract_articles example_lib cards_page news_url)
   \<and> 0 < extraction_index (extract_articles example_lib cards_page news_url ! 0)
   \<and> parse_article_container example_lib (unique_containers cards_page ! 3) news_url 3
       = Inr (Some (extract_articles example_lib cards_page news_url ! 1))"
proof -
  note t = extraction_index_is_container_position [of example_lib cards_page news_url]
  have e: "map extraction_index (extract_articles example_lib cards_page news_url) = [1, 3]"
    by (simp add: cards_extract card_record_def)
  have m: "extract_articles example_lib cards_page news_url ! 1
           \<in> set (extract_articles example_lib cards_page news_url)"
    by (simp add: cards_extract)
  have i: "extraction_index (extract_articles example_lib cards_page news_url ! 1) = 3"
    by (simp add: cards_extract card_record_def)
  have "parse_article_container example_lib (unique_containers cards_page ! 3) news_url 3
       = Inr (Some (extract_articles example_lib cards_page news_url ! 1))"
    using t m i by metis
  moreover have "sorted_wrt (<) (map extraction_index (extract_articles example_lib cards_page news_url))"
    using t by blast
  moreover have "(0::nat) < length (extract_articles example_lib cards_page news_url)"
    by (simp add: cards_extract)
  moreover have "0 < extraction_index (extract_articles example_lib cards_page news_url ! 0)"
    by (simp add: cards_extract card_record_def)
  ultimately show ?thesis
    using cards_unique e by (intro conjI)
qed

lemma startswith_slash_nonempty: "startswith h ''/'' \<Longrightarrow> h \<noteq> []"
  by (auto simp: startswith_def)

lemma find_link_char:
  "find_link L u hs acc =
     (case List.find external_href hs of
        Some h \<Rightarrow> Some h
      | None \<Rightarrow>
          if filter (\<lambda>h. startswith h ''/'') hs = [] then acc
          else Some (urljoin L u (last (filter (\<lambda>h. startswith h ''/'') hs))))"
proof (induction hs arbitrary: acc)
  case Nil
  then show ?case by simp
next
  case (Cons h hs)
  show ?case
    using Cons.IH [of acc] Cons.IH [of "Some (urljoin L u h)"] startswith_slash_nonempty [of h]
    by (auto simp: external_href_def split: option.splits)
qed

lemma external_href_eq:
  "external_href = (\<lambda>h. h \<noteq> [] \<and> \<not> startswith h ''#'' \<and> \<not> startswith h ''/'')"
  by (rule ext) (simp add: external_href_def)

text \<open>
  C2, as the code has it. The link of a record is the first non-empty href, in document
  order, that starts with neither \<open>#\<close> nor \<open>/\<close>, taken verbatim. When the container has
  no such href, the link is the last href starting with \<open>/\<close>, resolved against the page
  URL, and there is no link when no href starts with \<open>/\<close> either.
\<close>

theorem link_is_first_external_else_last_root_relative:
  "\<forall>a. parse_article_container L c u i = Inr (Some a)
        \<or> l_parse_article_container L c u i = Inr (Some a)
     \<longrightarrow> link a =
         (case List.find (\<lambda>h. h \<noteq> [] \<and> \<not> startswith h ''#'' \<and> \<not> startswith h ''/'') (hrefs c) of
            Some h \<Rightarrow> Some h
          | None \<Rightarrow>
              if filter (\<lambda>h. startswith h ''/'') (hrefs c) = [] then None
              else Some (urljoin L u (last (filter (\<lambda>h. startswith h ''/'') (hrefs c)))))"
  using find_link_char [of L u "hrefs c" None, unfolded external_href_eq]
  by (auto simp: l_parse_Some parse_fields(2))

theorem link_first_root_relative_counterexample:
  "hrefs internal_card = [''/a'', ''/b'']
   \<and> parse_article_container example_lib internal_card news_url 0
       = Inr (Some (card_record example_lib news_url 0 ''Only internal links''
                      (Some ''https://x.test/b'')))
   \<and> link (card_record example_lib news_url 0 ''Only internal links'' (Some ''https://x.test/b''))
       \<noteq> Some (urljoin example_lib news_url ''/a'')
   \<and> urljoin example_lib news_url ''/a'' = ''https://x.test/a''"
  by (simp add: cards_parse)
     (simp add: internal_card_def blank_def card_record_def example_lib_def news_url_def
        startswith_def url_scheme_def url_netloc_def)

theorem link_is_first_external_else_last_root_relative_witness:
  "parse_article_container example_lib titled_card news_url 1
     = Inr (Some (card_record example_lib news_url 1 ''0123456789a'' (Some ''https://y.test/story'')))
   \<and> hrefs titled_card = [''#top'', [], ''/about'', ''https://y.test/story'', ''/later'']
   \<and> List.find (\<lambda>h. h \<noteq> [] \<and> \<not> startswith h ''#'' \<and> \<not> startswith h ''/'') (hrefs titled_card)
       = Some ''https://y.test/story''
   \<and> link (card_record example_lib news_url 1 ''0123456789a'' (Some ''https://y.test/story''))
       = Some ''https://y.test/story''
   \<and> parse_article_container example_lib internal_card news_url 3
     = Inr (Some (card_record example_lib news_url 3 ''Only internal links''
                    (Some (urljoin example_lib news_url ''/b''))))
   \<and> hrefs internal_card = [''/a'', ''/b'']
   \<and> List.find (\<lambda>h. h \<noteq> [] \<and> \<not> startswith h ''#'' \<and> \<not> startswith h ''/'') (hrefs internal_card)
       = None
   \<and> filter (\<lambda>h. startswith h ''/'') (hrefs internal_card) = [''/a'', ''/b'']
   \<and> link (card_record example_lib news_url 3 ''Only internal links''
              (Some (urljoin example_lib news_url ''/b'')))
       = Some (urljoin example_lib news_url (last [''/a'', ''/b'']))"
proof -
  note t = link_is_first_external_else_last_root_relative [of example_lib titled_card news_url 1]
  note i = link_is_first_external_else_last_root_relative [of example_lib internal_card news_url 3]
  have p: "parse_article_container example_lib titled_card news_url 1
     = Inr (Some (card_record example_lib news_url 1 ''0123456789a'' (Some ''https://y.test/story'')))"
    by (rule cards_parse)
  have q: "parse_article_container example_lib internal_card news_url 3
     = Inr (Some (card_record example_lib news_url 3 ''Only internal links''
                    (Some (urljoin example_lib news_url ''/b''))))"
    by (rule cards_parse)
  have h: "hrefs titled_card = [''#top'', [], ''/about'', ''https://y.test/story'', ''/later'']"
    and g: "hrefs internal_card = [''/a'', ''/b'']"
    by (simp_all add: titled_card_def internal_card_def blank_def)
  have f: "List.find (\<lambda>h. h \<noteq> [] \<and> \<not> startswith h ''#'' \<and> \<not> startswith h ''/'') (hrefs titled_card)
       = Some ''https://y.test/story''"
    and n: "List.find (\<lambda>h. h \<noteq> [] \<and> \<not> startswith h ''#'' \<and> \<not> startswith h ''/'') (hrefs internal_card)
       = None"
    and r: "filter (\<lambda>h. startswith h ''/'') (hrefs internal_card) = [''/a'', ''/b'']"
    by (simp_all add: h g startswith_def)
  have l1: "link (card_record example_lib news_url 1 ''0123456789a'' (Some ''https://y.test/story''))
       = Some ''https://y.test/story''"
    using t p f by simp
  have l2: "link (card_record example_lib news_url 3 ''Only internal links''
              (Some (urljoin example_lib news_url ''/b'')))
       = Some (urljoin example_lib news_url (last [''/a'', ''/b'']))"
    using i q n r by simp
  show ?thesis
    using p h f l1 q g n r l2 by (intro conjI)
qed

lemma generate_article_id_length:
  "\<forall>x. length (md5_hexdigest L x) = 32 \<Longrightarrow> length (generate_article_id L u t i) = 16"
  by (simp add: generate_article_id_def)

text \<open>
  C7. The record id is the first 16 characters of the hexadecimal MD5 digest of the string
  \<open>pageUrl|title|index\<close>: it is a function of that triple alone, so two containers with the
  same title, parsed for the same page at the same index, get the same id whatever else
  they hold; and it is 16 characters long, the digest having 32.
\<close>

theorem record_id_depends_on_url_title_index:
  "(\<forall>a. parse_article_container L c u i = Inr (Some a)
         \<or> l_parse_article_container L c u i = Inr (Some a)
      \<longrightarrow> record_id a = take 16 (md5_hexdigest L (u @ ''|'' @ title a @ ''|'' @ str_nat i)))
   \<and> (\<forall>a a'. parse_article_container L c u i = Inr (Some a)
            \<and> parse_article_container L c' u i = Inr (Some a') \<and> title a = title a'
      \<longrightarrow> record_id a = record_id a')
   \<and> ((\<forall>x. length (md5_hexdigest L x) = 32) \<longrightarrow> length (generate_article_id L u t i) = 16)"
proof (intro conjI)
  show "\<forall>a. parse_article_container L c u i = Inr (Some a)
         \<or> l_parse_article_container L c u i = Inr (Some a)
      \<longrightarrow> record_id a = take 16 (md5_hexdigest L (u @ ''|'' @ title a @ ''|'' @ str_nat i))"
    by (auto simp: l_parse_Some parse_fields(3) generate_article_id_def)
  show "\<forall>a a'. parse_article_container L c u i = Inr (Some a)
            \<and> parse_article_container L c' u i = Inr (Some a') \<and> title a = title a'
      \<longrightarrow> record_id a = record_id a'"
    by (auto simp: parse_fields(3))
  show "(\<forall>x. length (md5_hexdigest L x) = 32) \<longrightarrow> length (generate_article_id L u t i) = 16"
    using generate_article_id_length by blast
qed

theorem record_id_depends_on_url_title_index_witness:
  "parse_article_container example_lib titled_card news_url 1
     = Inr (Some (card_record example_lib news_url 1 ''0123456789a'' (Some ''https://y.test/story'')))
   \<and> parse_article_container example_lib titled_twin news_url 1
     = Inr (Some (card_record example_lib news_url 1 ''0123456789a'' (Some ''https://x.test/elsewhere'')))
   \<and> record_id (card_record example_lib news_url 1 ''0123456789a'' (Some ''https://y.test/story''))
     = record_id (card_record example_lib news_url 1 ''0123456789a'' (Some ''https://x.test/elsewhere''))
   \<and> record_id (card_record example_lib news_url 1 ''0123456789a'' (Some ''https://y.test/story''))
     = take 16 (md5_hexdigest example_lib (news_url @ ''|'' @ ''0123456789a'' @ ''|'' @ str_nat 1))
   \<and> (\<forall>x. length (md5_hexdigest example_lib x) = 32)
   \<and> length (generate_article_id example_lib news_url ''0123456789a'' 1) = 16"
proof -
  note t = record_id_depends_on_url_title_index
             [of example_lib titled_card news_url 1 titled_twin "''0123456789a''"]
  have p: "parse_article_container example_lib titled_card news_url 1
     = Inr (Some (card_record example_lib news_url 1 ''0123456789a'' (Some ''https://y.test/story'')))"
    by (rule cards_parse)
  have q: "parse_article_container example_lib titled_twin news_url 1
     = Inr (Some (card_record example_lib news_url 1 ''0123456789a'' (Some ''https://x.test/elsewhere'')))"
    by (simp add: parse_article_container_def Let_def card_record_def find_image_def
          find_description_def titled_twin_def titled_card_def blank_def strip_def isspace_def
          startswith_def example_lib_def news_url_def url_scheme_def url_netloc_def)
  have ti: "title (card_record example_lib news_url 1 ''0123456789a'' (Some ''https://y.test/story''))
       = title (card_record example_lib news_url 1 ''0123456789a'' (Some ''https://x.test/elsewhere''))"
    by (simp add: card_record_def)
  have same: "record_id (card_record example_lib news_url 1 ''0123456789a'' (Some ''https://y.test/story''))
     = record_id (card_record example_lib news_url 1 ''0123456789a'' (Some ''https://x.test/elsewhere''))"
    using t p q ti by blast
  have "record_id (card_record example_lib news_url 1 ''0123456789a'' (Some ''https://y.test/story''))
     = take 16 (md5_hexdigest example_lib (news_url @ ''|''
         @ title (card_record example_lib news_url 1 ''0123456789a'' (Some ''https://y.test/story''))
         @ ''|'' @ str_nat 1))"
    using t p by blast
  then have rid: "record_id (card_record example_lib news_url 1 ''0123456789a'' (Some ''https://y.test/story''))
     = take 16 (md5_hexdigest example_lib (news_url @ ''|'' @ ''0123456789a'' @ ''|'' @ str_nat 1))"
    by (simp add: card_record_def)
  have len: "\<forall>x. length (md5_hexdigest example_lib x) = 32"
    by (simp add: example_lib_def)
  have "length (generate_article_id example_lib news_url ''0123456789a'' 1) = 16"
    using t len by blast
  then show ?thesis
    using p q same rid len by (intro conjI)
qed

subsection \<open>Fetching\<close>

lemma attempt_events_config:
  "config s' = config s \<Longrightarrow> attempt_events s' page = attempt_events s page"
  by (rule ext) (simp add: attempt_events_def)

lemma attempt_loop_all_fail:
  "(\<And>i. i < length as \<Longrightarrow> session_get w (clock s + i) page = None) \<Longrightarrow>
   attempt_loop L w page as s =
     (None, s\<lparr>clock := clock s + length as,
              trace := trace s @ concat (map (attempt_events s page) as),
              consecutive_failures := Suc (consecutive_failures s)\<rparr>)"
proof (induction as arbitrary: s)
  case Nil
  then show ?case by simp
next
  case (Cons a as)
  let ?s1 = "s\<lparr>clock := Suc (clock s), trace := trace s @ attempt_events s page a\<rparr>"
  have first: "session_get w (clock s) page = None"
    using Cons.prems [of 0] by simp
  have rest: "\<And>i. i < length as \<Longrightarrow> session_get w (clock ?s1 + i) page = None"
    using Cons.prems [of "Suc _"] by simp
  have step: "attempt_loop L w page (a # as) s = attempt_loop L w page as ?s1"
    using first by (simp add: attempt_events_def Let_def)
  have ev: "attempt_events ?s1 page = attempt_events s page"
    by (rule attempt_events_config) simp
  have "attempt_loop L w page (a # as) s = attempt_loop L w page as ?s1"
    by (rule step)
  also have "\<dots> =
     (None, ?s1\<lparr>clock := clock ?s1 + length as,
              trace := trace ?s1 @ concat (map (attempt_events ?s1 page) as),
              consecutive_failures := Suc (consecutive_failures ?s1)\<rparr>)"
    by (rule Cons.IH [OF rest])
  also have "\<dots> =
     (None, s\<lparr>clock := clock s + length (a # as),
              trace := trace s @ concat (map (attempt_events s page) (a # as)),
              consecutive_failures := Suc (consecutive_failures s)\<rparr>)"
    by (simp add: ev)
  finally show ?case .
qed

lemma attempt_loop_success:
  assumes "\<And>i. i < length pre \<Longrightarrow> session_get w (clock s + i) page = None"
    and "session_get w (clock s + length pre) page = Some (code, content)"
  shows "attempt_loop L w page (pre @ a # post) s =
     (Some \<lparr>p_url = page, p_title = extract_title (BeautifulSoup L content),
            articles = extract_articles L (BeautifulSoup L content) page,
            article_count = length (extract_articles L (BeautifulSoup L content) page),
            status_code = code, scraped_date = None\<rparr>,
      (count_page (urlparse_netloc L page)
         (s\<lparr>clock := Suc (clock s + length pre),
            trace := trace s @ concat (map (attempt_events s page) pre)
                     @ [Rate_limit_sleep, Page_get page]\<rparr>))\<lparr>consecutive_failures := 0\<rparr>)"
  using assms
proof (induction pre arbitrary: s)
  case Nil
  then show ?case by (simp add: Let_def)
next
  case (Cons b pre)
  let ?s1 = "s\<lparr>clock := Suc (clock s), trace := trace s @ attempt_events s page b\<rparr>"
  have first: "session_get w (clock s) page = None"
    using Cons.prems(1) [of 0] by simp
  have rest: "\<And>i. i < length pre \<Longrightarrow> session_get w (clock ?s1 + i) page = None"
    using Cons.prems(1) [of "Suc _"] by simp
  have hit: "session_get w (clock ?s1 + length pre) page = Some (code, content)"
    using Cons.prems(2) by simp
  have step: "attempt_loop L w page ((b # pre) @ a # post) s
              = attempt_loop L w page (pre @ a # post) ?s1"
    using first by (simp add: attempt_events_def Let_def)
  have ev: "attempt_events ?s1 page = attempt_events s page"
    by (rule attempt_events_config) simp
  have "attempt_loop L w page ((b # pre) @ a # post) s
        = attempt_loop L w page (pre @ a # post) ?s1"
    by (rule step)
  also note Cons.IH [OF rest hit]
  also have "(count_page (urlparse_netloc L page)
         (?s1\<lparr>clock := Suc (clock ?s1 + length pre),
            trace := trace ?s1 @ concat (map (attempt_events ?s1 page) pre)
                     @ [Rate_limit_sleep, Page_get page]\<rparr>))\<lparr>consecutive_failures := 0\<rparr>
      = (count_page (urlparse_netloc L page)
         (s\<lparr>clock := Suc (clock s + length (b # pre)),
            trace := trace s @ concat (map (attempt_events s page) (b # pre))
                     @ [Rate_limit_sleep, Page_get page]\<rparr>))\<lparr>consecutive_failures := 0\<rparr>"
    by (simp add: ev count_page_def)
  finally show ?case .
qed

lemma attempt_loop_clock:
  "clock (snd (attempt_loop L w page as s)) \<le> clock s + length as"
proof (induction as arbitrary: s)
  case Nil
  then show ?case by simp
next
  case (Cons a as)
  show ?case
  proof (cases "session_get w (clock s) page")
    case None
    then show ?thesis
      using Cons.IH [of "s\<lparr>clock := Suc (clock s),
                           trace := trace s @ [Rate_limit_sleep, Page_get page]\<rparr>"]
            Cons.IH [of "s\<lparr>clock := Suc (clock s),
                           trace := trace s @ [Rate_limit_sleep, Page_get page, Backoff (2 ^ a)]\<rparr>"]
      by (auto simp: Let_def)
  next
    case (Some r)
    then show ?thesis by (cases r) (simp add: Let_def count_page_def)
  qed
qed

lemma attempt_loop_count:
  "attempt_loop L w page as s = (Some d, s') \<Longrightarrow> article_count d = length (articles d)"
proof (induction as arbitrary: s)
  case Nil
  then show ?case by simp
next
  case (Cons a as)
  show ?case
  proof (cases "session_get w (clock s) page")
    case None
    then show ?thesis
      using Cons.prems Cons.IH by (auto simp: Let_def split: if_splits)
  next
    case (Some r)
    then show ?thesis using Cons.prems by (cases r) (auto simp: Let_def)
  qed
qed

subsection \<open>What the robots check leaves alone\<close>

lemma pages_requested_append [simp]:
  "pages_requested (xs @ ys) = pages_requested xs @ pages_requested ys"
  by (induction xs rule: pages_requested.induct) simp_all

lemma backoffs_append [simp]:
  "backoffs (xs @ ys) = backoffs xs @ backoffs ys"
  by (induction xs rule: backoffs.induct) simp_all

lemma load_robots_frame: "same_counters s (snd (load_robots L w s domain))"
  by (auto simp: same_counters_def load_robots_def store_parser_def Let_def page_events_def
           split: http_result.splits option.splits)

lemma l_load_robots_frame: "same_counters s (snd (l_load_robots L w s domain))"
  by (auto simp: same_counters_def l_load_robots_def store_parser_def Let_def page_events_def
           split: http_result.splits)

lemma same_counters_refl [simp]: "same_counters s s"
  by (simp add: same_counters_def)

lemma can_fetch_frame: "same_counters s (snd (can_fetch L w s page agent))"
proof (cases "robot_parsers s (urlparse_scheme L page @ ''://'' @ urlparse_netloc L page)")
  case None
  then have "snd (can_fetch L w s page agent)
             = snd (load_robots L w s (urlparse_scheme L page @ ''://'' @ urlparse_netloc L page))"
    by (simp add: can_fetch_def Let_def split: prod.splits)
  then show ?thesis by (simp only: load_robots_frame)
next
  case (Some rp)
  then have "snd (can_fetch L w s page agent) = s"
    by (simp add: can_fetch_def)
  then show ?thesis by simp
qed

lemma l_can_fetch_frame: "same_counters s (snd (l_can_fetch L w s page agent))"
proof (cases "robot_parsers s (urlparse_scheme L page @ ''://'' @ urlparse_netloc L page)")
  case None
  then have "snd (l_can_fetch L w s page agent)
             = snd (l_load_robots L w s (urlparse_scheme L page @ ''://'' @ urlparse_netloc L page))"
    by (simp add: l_can_fetch_def Let_def split: prod.splits)
  then show ?thesis by (simp only: l_load_robots_frame)
next
  case (Some rp)
  then have "snd (l_can_fetch L w s page agent) = s"
    by (simp add: l_can_fetch_def)
  then show ?thesis by simp
qed

lemma should_scrape_url_frame: "same_counters s (snd (should_scrape_url L w s page))"
  by (simp add: should_scrape_url_def can_fetch_frame)

lemma l_should_scrape_url_frame: "same_counters s (snd (l_should_scrape_url L w s page))"
  by (simp add: l_should_scrape_url_def l_can_fetch_frame)

lemma should_scrape_url_blocked:
  "(\<not> fst (should_scrape_url L w s page)) =
     (quota_reached s (urlparse_netloc L page)
      \<or> respect_robots_txt (config s) \<and> \<not> fst (can_fetch L w s page (user_agent (config s))))"
  by (simp add: should_scrape_url_def)

lemma scrape_url_blocked:
  "\<not> fst (should_scrape_url L w s page) \<Longrightarrow>
   scrape_url L w s page = (None, snd (should_scrape_url L w s page))"
  by (cases "should_scrape_url L w s page") (simp add: scrape_url_def)

lemma l_scrape_url_blocked:
  "\<not> fst (l_should_scrape_url L w s page) \<Longrightarrow>
   l_scrape_url L w s page = (None, snd (l_should_scrape_url L w s page))"
  by (cases "l_should_scrape_url L w s page") (simp add: l_scrape_url_def)

lemma scrape_url_allowed:
  "should_scrape_url L w s page = (True, s0) \<Longrightarrow>
   scrape_url L w s page = attempt_loop L w page [0..<nat (max_retries (config s0))] s0"
  by (simp add: scrape_url_def)

text \<open>
  C8. A URL is blocked when its domain has reached the page quota or when robots.txt
  disallows it. For a blocked URL \<open>scrape_url\<close> returns no result and the state the check
  left: the failure counter and the domain counters are those from before the call, and
  the trace has gained no rate-limit sleep, no page request and no backoff.
\<close>

theorem blocked_url_is_skipped_and_not_counted:
  "(\<not> fst (should_scrape_url L w s page)) =
     (quota_reached s (urlparse_netloc L page)
      \<or> respect_robots_txt (config s) \<and> \<not> fst (can_fetch L w s page (user_agent (config s))))
   \<and> (\<not> fst (should_scrape_url L w s page) \<longrightarrow>
        fst (scrape_url L w s page) = None
        \<and> consecutive_failures (snd (scrape_url L w s page)) = consecutive_failures s
        \<and> domain_counters (snd (scrape_url L w s page)) = domain_counters s
        \<and> page_events (trace (snd (scrape_url L w s page))) = page_events (trace s))
   \<and> (\<not> fst (l_should_scrape_url L w s page) \<longrightarrow>
        fst (l_scrape_url L w s page) = None
        \<and> consecutive_failures (snd (l_scrape_url L w s page)) = consecutive_failures s
        \<and> domain_counters (snd (l_scrape_url L w s page)) = domain_counters s
        \<and> page_events (trace (snd (l_scrape_url L w s page))) = page_events (trace s))"
  using should_scrape_url_frame [of s L w page] l_should_scrape_url_frame [of s L w page]
        should_scrape_url_blocked [of L w s page]
  by (auto simp: scrape_url_blocked l_scrape_url_blocked same_counters_def)

lemma example_lib_fields:
  "urljoin example_lib b h
     = (if startswith h ''/'' then url_scheme b @ ''://'' @ url_netloc b @ h else h)"
  "urlparse_scheme example_lib = url_scheme"
  "urlparse_netloc example_lib = url_netloc"
  "BeautifulSoup example_lib c = (if c = ''cards'' then cards_page else empty_page)"
  "robots_allows example_lib text agent u = (\<not> contains text ''Disallow: /'')"
  "md5_hexdigest example_lib x = replicate 32 (CHR ''0'')"
  by (simp_all add: example_lib_def)

lemma news_url_parts:
  "url_scheme news_url = ''https''"
  "url_netloc news_url = ''x.test''"
  "url_scheme ''https://x.test/other'' = ''https''"
  "url_netloc ''https://x.test/other'' = ''x.test''"
  "url_scheme ''https://x.test'' = ''https''"
  "url_netloc ''https://x.test'' = ''x.test''"
  by (simp_all add: news_url_def url_scheme_def url_netloc_def)

lemma robots_503_can_fetch:
  "can_fetch example_lib robots_503_world (new_scraper default_config) news_url agent
     = (False, (new_scraper default_config)
                 \<lparr>robot_parsers := [''https://x.test'' \<mapsto> RobotFileParser ''https://x.test/robots.txt''],
                  clock := 1, trace := [Robots_get ''https://x.test/robots.txt'']\<rparr>)"
  by (simp add: can_fetch_def load_robots_def store_parser_def rp_can_fetch_def
        RobotFileParser_def robots_503_world_def new_scraper_def example_lib_fields
        news_url_parts startswith_def Let_def)

lemma full_scraper_quota: "quota_reached full_scraper (urlparse_netloc example_lib news_url)"
  by (simp add: quota_reached_def full_scraper_def new_scraper_def default_config_def
        example_lib_fields news_url_parts)

lemma disallow_can_fetch:
  "fst (can_fetch example_lib disallow_world (new_scraper default_config) news_url
          (user_agent (config (new_scraper default_config)))) = False"
  by (simp add: can_fetch_def load_robots_def store_parser_def rp_can_fetch_def rp_read_def
        rp_parse_def RobotFileParser_def disallow_world_def new_scraper_def default_config_def
        example_lib_fields news_url_parts startswith_def Let_def)

theorem blocked_url_is_skipped_and_not_counted_witness:
  "quota_reached full_scraper (urlparse_netloc example_lib news_url)
   \<and> fst (scrape_url example_lib flaky_world full_scraper news_url) = None
   \<and> consecutive_failures (snd (scrape_url example_lib flaky_world full_scraper news_url))
       = consecutive_failures full_scraper
   \<and> domain_counters (snd (scrape_url example_lib flaky_world full_scraper news_url))
       = domain_counters full_scraper
   \<and> page_events (trace (snd (scrape_url example_lib flaky_world full_scraper news_url)))
       = page_events (trace full_scraper)
   \<and> respect_robots_txt (config (new_scraper default_config))
   \<and> \<not> fst (can_fetch example_lib disallow_world (new_scraper default_config) news_url
              (user_agent (config (new_scraper default_config))))
   \<and> fst (scrape_url example_lib disallow_world (new_scraper default_config) news_url) = None
   \<and> consecutive_failures
         (snd (scrape_url example_lib disallow_world (new_scraper default_config) news_url)) = 0
   \<and> page_events
         (trace (snd (scrape_url example_lib disallow_world (new_scraper default_config) news_url)))
       = []
   \<and> \<not> fst (l_should_scrape_url example_lib robots_503_world (new_scraper default_config) news_url)
   \<and> fst (l_scrape_url example_lib robots_503_world (new_scraper default_config) news_url) = None"
proof -
  note q = blocked_url_is_skipped_and_not_counted [of example_lib flaky_world full_scraper news_url]
  note r = blocked_url_is_skipped_and_not_counted
             [of example_lib disallow_world "new_scraper default_config" news_url]
  note l = blocked_url_is_skipped_and_not_counted
             [of example_lib robots_503_world "new_scraper default_config" news_url]
  have respect: "respect_robots_txt (config (new_scraper default_config))"
    by (simp add: new_scraper_def default_config_def)
  have lb: "\<not> fst (l_should_scrape_url example_lib robots_503_world (new_scraper default_config) news_url)"
    by (simp add: l_should_scrape_url_def l_can_fetch_def l_load_robots_def store_parser_def
          rp_can_fetch_def RobotFileParser_def robots_503_world_def new_scraper_def
          default_config_def example_lib_fields news_url_parts startswith_def Let_def)
  have init: "consecutive_failures (new_scraper default_config) = 0"
    "page_events (trace (new_scraper default_config)) = []"
    by (simp_all add: new_scraper_def page_events_def)
  show ?thesis
    using q r l full_scraper_quota disallow_can_fetch respect lb init by simp
qed

subsection \<open>A failed robots.txt retrieval\<close>

lemma unread_parser_denies:
  "rp_can_fetch L (RobotFileParser robots_url) agent page = False"
  by (simp add: rp_can_fetch_def RobotFileParser_def)

lemma robots_failure_denies:
  assumes "robot_parsers s (urlparse_scheme L page @ ''://'' @ urlparse_netloc L page) = None"
    and "\<And>text. w (clock s)
            (urljoin L (urlparse_scheme L page @ ''://'' @ urlparse_netloc L page) ''/robots.txt'')
          \<noteq> Returned 200 text"
  shows "fst (can_fetch L w s page agent) = False"
    and "fst (l_can_fetch L w s page agent) = False"
  using assms
  by (auto simp: can_fetch_def l_can_fetch_def load_robots_def l_load_robots_def store_parser_def
        unread_parser_denies Let_def split: http_result.splits)

lemma cached_unread_parser_denies:
  assumes "robot_parsers s (urlparse_scheme L page @ ''://'' @ urlparse_netloc L page)
           = Some (RobotFileParser robots_url)"
  shows "can_fetch L w s page agent = (False, s)"
    and "l_can_fetch L w s page agent = (False, s)"
  using assms by (simp_all add: can_fetch_def l_can_fetch_def unread_parser_denies)

lemma scrape_url_cached_unread:
  assumes "\<not> quota_reached s (urlparse_netloc L page)"
    and "respect_robots_txt (config s)"
    and "robot_parsers s (urlparse_scheme L page @ ''://'' @ urlparse_netloc L page)
           = Some (RobotFileParser robots_url)"
  shows "scrape_url L w s page = (None, s)"
  using assms
  by (simp add: scrape_url_def should_scrape_url_def cached_unread_parser_denies(1))

lemma robots_503_scrape:
  "scrape_url example_lib robots_503_world (new_scraper default_config) news_url
     = (None, (new_scraper default_config)
                 \<lparr>robot_parsers := [''https://x.test'' \<mapsto> RobotFileParser ''https://x.test/robots.txt''],
                  clock := 1, trace := [Robots_get ''https://x.test/robots.txt'']\<rparr>)"
  by (simp add: scrape_url_def should_scrape_url_def quota_reached_def robots_503_can_fetch)
     (simp add: new_scraper_def default_config_def example_lib_fields)

text \<open>
  C1, at the failing input. robots.txt of x.test answers 503 and every page of x.test
  answers 200. The parser stored for the domain has never read a file, and such a parser
  allows nothing: \<open>can_fetch\<close> is false in both files, \<open>scrape_url\<close> returns nothing and
  requests no page, and the next URL of the domain is refused from the cache.
\<close>

theorem robots_503_blocks_the_domain:
  "robots_503_world 0 ''https://x.test/robots.txt'' = Returned 503 []
   \<and> robots_503_world 1 news_url = Returned 200 ''cards''
   \<and> fst (can_fetch example_lib robots_503_world (new_scraper default_config) news_url
            ''TLDR-Scraper/1.0'') = False
   \<and> fst (l_can_fetch example_lib robots_503_world (new_scraper default_config) news_url
            ''TLDR-Scraper/1.0'') = False
   \<and> fst (scrape_url example_lib robots_503_world (new_scraper default_config) news_url) = None
   \<and> pages_requested
         (trace (snd (scrape_url example_lib robots_503_world (new_scraper default_config) news_url)))
       = []
   \<and> fst (scrape_url example_lib robots_503_world
            (snd (scrape_url example_lib robots_503_world (new_scraper default_config) news_url))
            ''https://x.test/other'') = None"
proof -
  let ?s1 = "(new_scraper default_config)
                 \<lparr>robot_parsers := [''https://x.test'' \<mapsto> RobotFileParser ''https://x.test/robots.txt''],
                  clock := 1, trace := [Robots_get ''https://x.test/robots.txt'']\<rparr>"
  have "scrape_url example_lib robots_503_world ?s1 ''https://x.test/other'' = (None, ?s1)"
    by (rule scrape_url_cached_unread [where robots_url = "''https://x.test/robots.txt''"])
       (simp_all add: quota_reached_def new_scraper_def default_config_def example_lib_fields
          news_url_parts)
  then have later: "fst (scrape_url example_lib robots_503_world
            (snd (scrape_url example_lib robots_503_world (new_scraper default_config) news_url))
            ''https://x.test/other'') = None"
    by (simp only: robots_503_scrape snd_conv fst_conv)
  have l: "fst (l_can_fetch example_lib robots_503_world (new_scraper default_config) news_url
            ''TLDR-Scraper/1.0'') = False"
    by (rule robots_failure_denies)
       (simp_all add: new_scraper_def robots_503_world_def example_lib_fields news_url_parts
          startswith_def)
  show ?thesis
    using later l
    by (simp add: robots_503_can_fetch robots_503_scrape)
       (simp add: robots_503_world_def news_url_def)
qed

subsection \<open>Page results\<close>

lemma l_attempt_loop_count:
  "l_attempt_loop L w page as s = (Some d, s') \<Longrightarrow> article_count d = length (articles d)"
proof (induction as arbitrary: s)
  case Nil
  then show ?case by simp
next
  case (Cons a as)
  show ?case
  proof (cases "session_get w (clock s) page")
    case None
    then show ?thesis
      using Cons.prems Cons.IH by (auto simp: Let_def split: if_splits)
  next
    case (Some r)
    then show ?thesis using Cons.prems by (cases r) (auto simp: Let_def)
  qed
qed

lemma scrape_url_count:
  "scrape_url L w s page = (Some d, s') \<Longrightarrow> article_count d = length (articles d)"
  by (cases "should_scrape_url L w s page")
     (auto simp: scrape_url_def split: if_splits dest: attempt_loop_count)

lemma l_scrape_url_count:
  "l_scrape_url L w s page = (Some d, s') \<Longrightarrow> article_count d = length (articles d)"
  by (cases "l_should_scrape_url L w s page")
     (auto simp: l_scrape_url_def split: if_splits dest: l_attempt_loop_count)

lemma date_loop_count:
  "\<forall>d\<in>set rs. article_count d = length (articles d) \<Longrightarrow>
   \<forall>d\<in>set (fst (date_loop L w t ds s rs)). article_count d = length (articles d)"
proof (induction ds arbitrary: s rs)
  case Nil
  then show ?case by simp
next
  case (Cons x ds)
  show ?case
  proof (cases "scrape_url L w s (format_url_with_date L t x)")
    case (Pair r s')
    show ?thesis
    proof (cases r)
      case None
      then show ?thesis using Pair Cons by simp
    next
      case (Some data)
      have "article_count data = length (articles data)"
        using Pair Some scrape_url_count by blast
      then have "\<forall>d\<in>set (rs @ [data\<lparr>scraped_date := Some x\<rparr>]).
                   article_count d = length (articles d)"
        using Cons.prems by simp
      from Cons.IH [OF this] show ?thesis
        using Pair Some Cons.prems by simp
    qed
  qed
qed

lemma unique_subset: "set (unique_containers soup) \<subseteq> set (article_containers soup)"
  by (simp add: unique_containers_def unique_loop_nths set_nths_subset)

lemma extract_articles_none_titled:
  assumes "\<forall>c\<in>set (article_containers soup). find_title (heading_texts c) = None"
  shows "extract_articles L soup u = []"
proof (rule ccontr)
  assume "extract_articles L soup u \<noteq> []"
  then obtain a where a: "a \<in> set (extract_articles L soup u)"
    by (cases "extract_articles L soup u") auto
  let ?c = "unique_containers soup ! extraction_index a"
  from extract_member [OF a] have i: "extraction_index a < length (unique_containers soup)"
    and p: "parse_article_container L ?c u (extraction_index a) = Inr (Some a)"
    by simp_all
  from i have "?c \<in> set (article_containers soup)"
    using unique_subset nth_mem by blast
  with assms have "find_title (heading_texts ?c) = None" by blast
  with parse_fields(1) [OF p] show False by simp
qed

text \<open>
  C9. In every result \<open>scrape_url\<close> returns, in either file, and in every result the
  date-range driver returns, \<open>article_count\<close> is the length of \<open>articles\<close>. When no
  candidate container has a qualifying title the article pass returns the empty list.
\<close>

theorem article_count_is_number_of_articles:
  "(\<forall>d s'. scrape_url L w s page = (Some d, s') \<or> l_scrape_url L w s page = (Some d, s')
       \<longrightarrow> article_count d = length (articles d))
   \<and> (\<forall>d\<in>set (fst (scrape_date_range L w s t a b)). article_count d = length (articles d))
   \<and> ((\<forall>c\<in>set (article_containers soup). find_title (heading_texts c) = None)
       \<longrightarrow> extract_articles L soup u = [] \<and> l_extract_articles L soup u = [])"
proof (intro conjI)
  show "\<forall>d s'. scrape_url L w s page = (Some d, s') \<or> l_scrape_url L w s page = (Some d, s')
       \<longrightarrow> article_count d = length (articles d)"
    using scrape_url_count l_scrape_url_count by blast
  show "\<forall>d\<in>set (fst (scrape_date_range L w s t a b)). article_count d = length (articles d)"
    unfolding scrape_date_range_def by (rule date_loop_count) simp
  show "(\<forall>c\<in>set (article_containers soup). find_title (heading_texts c) = None)
       \<longrightarrow> extract_articles L soup u = [] \<and> l_extract_articles L soup u = []"
    by (simp add: extract_articles_none_titled l_extract_articles_eq)
qed

lemma upt_3: "[0..<3] = [0, 1, 2::nat]"
  by (simp add: upt_rec)

lemma flaky_scrape:
  "scrape_url example_lib flaky_world (new_scraper open_config) news_url
     = (Some flaky_result,
        (new_scraper open_config)
          \<lparr>domain_counters := [''x.test'' \<mapsto> 1], consecutive_failures := 0, clock := 3,
           trace := [Rate_limit_sleep, Page_get news_url, Backoff 1,
                     Rate_limit_sleep, Page_get news_url, Backoff 2,
                     Rate_limit_sleep, Page_get news_url]\<rparr>)"
  by (simp add: scrape_url_def should_scrape_url_def quota_reached_def new_scraper_def
        open_config_def default_config_def upt_3 session_get_def flaky_world_def count_page_def
        example_lib_fields news_url_parts extract_title_def cards_extract Let_def
        flaky_result_def)
     (simp add: cards_page_def strip_def isspace_def)

lemma dead_scrape:
  "scrape_url example_lib dead_world (new_scraper open_config) news_url
     = (None,
        (new_scraper open_config)
          \<lparr>consecutive_failures := 1, clock := 3,
           trace := [Rate_limit_sleep, Page_get news_url, Backoff 1,
                     Rate_limit_sleep, Page_get news_url, Backoff 2,
                     Rate_limit_sleep, Page_get news_url]\<rparr>)"
  by (simp add: scrape_url_def should_scrape_url_def quota_reached_def new_scraper_def
        open_config_def default_config_def upt_3 session_get_def dead_world_def Let_def)

theorem article_count_is_number_of_articles_witness:
  "fst (scrape_url example_lib flaky_world (new_scraper open_config) news_url) = Some flaky_result
   \<and> article_count flaky_result = length (articles flaky_result)
   \<and> length (articles flaky_result) = 2
   \<and> article_containers untitled_page = [short_card, short_card]
   \<and> find_title (heading_texts short_card) = None
   \<and> extract_articles example_lib untitled_page news_url = []
   \<and> l_extract_articles example_lib untitled_page news_url = []"
proof -
  note t = article_count_is_number_of_articles
             [of example_lib flaky_world "new_scraper open_config" news_url _ _ _
                 untitled_page news_url]
  have c: "article_count flaky_result = length (articles flaky_result)"
    using t flaky_scrape by blast
  have two: "length (articles flaky_result) = 2"
    by (simp add: flaky_result_def cards_extract)
  have u: "article_containers untitled_page = [short_card, short_card]"
    by (simp add: article_containers_def untitled_page_def)
  have n: "find_title (heading_texts short_card) = None"
    by (rule cards_titles)
  have "\<forall>c\<in>set (article_containers untitled_page). find_title (heading_texts c) = None"
    by (simp add: u n)
  with t have "extract_articles example_lib untitled_page news_url = []
               \<and> l_extract_articles example_lib untitled_page news_url = []"
    by blast
  then show ?thesis
    using c two u n by (simp add: flaky_scrape)
qed

subsection \<open>Retries and backoff\<close>

lemma l_attempt_loop_eq:
  "l_attempt_loop L w page as s =
     (map_option lambda_result (fst (attempt_loop L w page as s)),
      (snd (attempt_loop L w page as s))\<lparr>domain_counters := domain_counters s\<rparr>)"
proof (induction as arbitrary: s)
  case Nil
  then show ?case by simp
next
  case (Cons a as)
  show ?case
  proof (cases "session_get w (clock s) page")
    case None
    then show ?thesis
      using Cons.IH by (simp add: Let_def)
  next
    case (Some r)
    then show ?thesis
      by (cases r)
         (simp add: Let_def count_page_def lambda_result_def l_extract_articles_eq)
  qed
qed

lemma backoffs_attempt_events:
  "backoffs (concat (map (attempt_events s page) as))
   = map (\<lambda>i. 2 ^ i) (filter (\<lambda>i. int i < max_retries (config s) - 1) as)"
  by (induction as) (simp_all add: attempt_events_def)

lemma pages_attempt_events:
  "pages_requested (concat (map (attempt_events s page) as)) = replicate (length as) page"
  by (induction as) (simp_all add: attempt_events_def)

lemma filter_not_last:
  "filter (\<lambda>i. int i < int n - 1) [0..<n] = [0..<n - 1]"
proof (cases n)
  case 0
  then show ?thesis by simp
next
  case (Suc m)
  have "filter (\<lambda>i. i < m) [0..<m] = [0..<m]"
    by (rule filter_True) simp
  then show ?thesis using Suc by simp
qed

lemma attempt_events_not_last:
  "i < k \<Longrightarrow> k < nat (max_retries (config s)) \<Longrightarrow>
   attempt_events s page i = [Rate_limit_sleep, Page_get page, Backoff (2 ^ i)]"
  by (simp add: attempt_events_def)

lemma upt_split: "k < n \<Longrightarrow> [0..<n] = [0..<k] @ k # [Suc k..<n]"
  using upt_add_eq_append [of 0 k "n - k"] by (simp add: upt_conv_Cons)

lemma scrape_url_gate:
  assumes "should_scrape_url L w s page = (True, s0)"
  shows "scrape_url L w s page = attempt_loop L w page [0..<nat (max_retries (config s))] s0"
    and "same_counters s s0"
proof -
  show sc: "same_counters s s0"
    using should_scrape_url_frame [of s L w page] assms by simp
  then have "config s0 = config s" by (simp add: same_counters_def)
  then show "scrape_url L w s page = attempt_loop L w page [0..<nat (max_retries (config s))] s0"
    using scrape_url_allowed [OF assms] by simp
qed

lemma scrape_url_exhausted:
  assumes gate: "should_scrape_url L w s page = (True, s0)"
    and fail: "\<forall>i<nat (max_retries (config s)). session_get w (clock s0 + i) page = None"
  shows "scrape_url L w s page =
     (None, s0\<lparr>clock := clock s0 + nat (max_retries (config s)),
               trace := trace s0
                        @ concat (map (attempt_events s page) [0..<nat (max_retries (config s))]),
               consecutive_failures := Suc (consecutive_failures s)\<rparr>)"
proof -
  note g = scrape_url_gate [OF gate]
  have ev: "attempt_events s0 page = attempt_events s page"
    using g(2) by (intro attempt_events_config) (simp add: same_counters_def)
  have cf: "consecutive_failures s0 = consecutive_failures s"
    using g(2) by (simp add: same_counters_def)
  have "attempt_loop L w page [0..<nat (max_retries (config s))] s0 =
     (None, s0\<lparr>clock := clock s0 + length [0..<nat (max_retries (config s))],
               trace := trace s0
                        @ concat (map (attempt_events s0 page) [0..<nat (max_retries (config s))]),
               consecutive_failures := Suc (consecutive_failures s0)\<rparr>)"
    by (rule attempt_loop_all_fail) (use fail in simp)
  then show ?thesis
    by (simp add: g(1) ev cf)
qed

lemma scrape_url_succeeds:
  assumes gate: "should_scrape_url L w s page = (True, s0)"
    and k: "k < nat (max_retries (config s))"
    and fail: "\<forall>i<k. session_get w (clock s0 + i) page = None"
    and hit: "session_get w (clock s0 + k) page \<noteq> None"
  shows "fst (scrape_url L w s page) \<noteq> None"
    and "consecutive_failures (snd (scrape_url L w s page)) = 0"
    and "trace (snd (scrape_url L w s page)) =
           trace s0 @ concat (map (\<lambda>i. [Rate_limit_sleep, Page_get page, Backoff (2 ^ i)]) [0..<k])
           @ [Rate_limit_sleep, Page_get page]"
proof -
  note g = scrape_url_gate [OF gate]
  have cfg: "config s0 = config s"
    using g(2) by (simp add: same_counters_def)
  from hit obtain code content
    where hit': "session_get w (clock s0 + length [0..<k]) page = Some (code, content)"
    by (cases "session_get w (clock s0 + k) page") auto
  have fail': "\<And>i. i < length [0..<k] \<Longrightarrow> session_get w (clock s0 + i) page = None"
    using fail by simp
  have ev: "map (attempt_events s0 page) [0..<k]
            = map (\<lambda>i. [Rate_limit_sleep, Page_get page, Backoff (2 ^ i)]) [0..<k]"
    using k by (intro map_cong refl attempt_events_not_last [of _ k]) (simp_all add: cfg)
  note r = attempt_loop_success [OF fail' hit', of L k "[Suc k..<nat (max_retries (config s))]"]
  have run: "scrape_url L w s page
             = attempt_loop L w page ([0..<k] @ k # [Suc k..<nat (max_retries (config s))]) s0"
    using g(1) upt_split [OF k] by simp
  show "fst (scrape_url L w s page) \<noteq> None"
    by (simp only: run r fst_conv) simp
  show "consecutive_failures (snd (scrape_url L w s page)) = 0"
    by (simp only: run r snd_conv) simp
  show "trace (snd (scrape_url L w s page)) =
           trace s0 @ concat (map (\<lambda>i. [Rate_limit_sleep, Page_get page, Backoff (2 ^ i)]) [0..<k])
           @ [Rate_limit_sleep, Page_get page]"
    by (simp only: run r snd_conv) (simp add: ev count_page_def)
qed

text \<open>
  C4, as the code has it. Once the policy gate has let the URL through, \<open>scrape_url\<close>
  makes at most \<open>max_retries\<close> requests. When all of them fail it returns nothing and
  the failure counter is one higher; each failed attempt \<open>i\<close> but the last one allowed is
  followed by a backoff of \<open>2 ^ i\<close> seconds, that is 1, 2, 4, 8 seconds after attempts
  0, 1, 2, 3, and nothing precedes the first attempt but the rate-limit sleep. When attempt
  \<open>k\<close> is the first to succeed, a result is returned, the failure counter is zero, and the
  trace ends with that request. The Lambda scraper runs the same attempts and leaves the
  domain counters alone.
\<close>

theorem retries_back_off_by_powers_of_two:
  "should_scrape_url L w s page = (True, s0) \<longrightarrow>
     clock (snd (scrape_url L w s page)) \<le> clock s0 + nat (max_retries (config s))
     \<and> ((\<forall>i<nat (max_retries (config s)). session_get w (clock s0 + i) page = None) \<longrightarrow>
          fst (scrape_url L w s page) = None
          \<and> consecutive_failures (snd (scrape_url L w s page)) = consecutive_failures s + 1
          \<and> trace (snd (scrape_url L w s page))
              = trace s0 @ concat (map (attempt_events s page) [0..<nat (max_retries (config s))])
          \<and> backoffs (trace (snd (scrape_url L w s page)))
              = backoffs (trace s) @ map (\<lambda>i. 2 ^ i) [0..<nat (max_retries (config s)) - 1])
     \<and> (\<forall>k<nat (max_retries (config s)).
           (\<forall>i<k. session_get w (clock s0 + i) page = None)
           \<and> session_get w (clock s0 + k) page \<noteq> None \<longrightarrow>
             fst (scrape_url L w s page) \<noteq> None
             \<and> consecutive_failures (snd (scrape_url L w s page)) = 0
             \<and> trace (snd (scrape_url L w s page))
                 = trace s0
                   @ concat (map (\<lambda>i. [Rate_limit_sleep, Page_get page, Backoff (2 ^ i)]) [0..<k])
                   @ [Rate_limit_sleep, Page_get page])
     \<and> l_attempt_loop L w page [0..<nat (max_retries (config s))] s0
         = (map_option lambda_result (fst (scrape_url L w s page)),
            (snd (scrape_url L w s page))\<lparr>domain_counters := domain_counters s0\<rparr>)"
proof (intro impI conjI)
  assume gate: "should_scrape_url L w s page = (True, s0)"
  note g = scrape_url_gate [OF gate]
  show "clock (snd (scrape_url L w s page)) \<le> clock s0 + nat (max_retries (config s))"
    using attempt_loop_clock [of L w page "[0..<nat (max_retries (config s))]" s0]
    by (simp add: g(1))
  show "l_attempt_loop L w page [0..<nat (max_retries (config s))] s0
         = (map_option lambda_result (fst (scrape_url L w s page)),
            (snd (scrape_url L w s page))\<lparr>domain_counters := domain_counters s0\<rparr>)"
    by (simp only: g(1) l_attempt_loop_eq)
  {
    assume fail: "\<forall>i<nat (max_retries (config s)). session_get w (clock s0 + i) page = None"
    note e = scrape_url_exhausted [OF gate fail]
    show "fst (scrape_url L w s page) = None"
      by (simp add: e)
    show "consecutive_failures (snd (scrape_url L w s page)) = consecutive_failures s + 1"
      by (simp add: e)
    show "trace (snd (scrape_url L w s page))
              = trace s0 @ concat (map (attempt_events s page) [0..<nat (max_retries (config s))])"
      by (simp add: e)
    have "backoffs (trace s0) = backoffs (trace s)"
      using g(2) by (simp add: same_counters_def)
    moreover have "filter (\<lambda>i. int i < max_retries (config s) - 1) [0..<nat (max_retries (config s))]
          = [0..<nat (max_retries (config s)) - 1]"
    proof (cases "0 \<le> max_retries (config s)")
      case True
      then show ?thesis
        using filter_not_last [of "nat (max_retries (config s))"] by simp
    next
      case False
      then show ?thesis by simp
    qed
    ultimately show "backoffs (trace (snd (scrape_url L w s page)))
              = backoffs (trace s) @ map (\<lambda>i. 2 ^ i) [0..<nat (max_retries (config s)) - 1]"
      by (simp add: e backoffs_attempt_events)
  }
  show "\<forall>k<nat (max_retries (config s)).
           (\<forall>i<k. session_get w (clock s0 + i) page = None)
           \<and> session_get w (clock s0 + k) page \<noteq> None \<longrightarrow>
             fst (scrape_url L w s page) \<noteq> None
             \<and> consecutive_failures (snd (scrape_url L w s page)) = 0
             \<and> trace (snd (scrape_url L w s page))
                 = trace s0
                   @ concat (map (\<lambda>i. [Rate_limit_sleep, Page_get page, Backoff (2 ^ i)]) [0..<k])
                   @ [Rate_limit_sleep, Page_get page]"
    using scrape_url_succeeds [OF gate] by blast
qed

lemma open_gate:
  "should_scrape_url L w (new_scraper open_config) page = (True, new_scraper open_config)"
  by (simp add: should_scrape_url_def quota_reached_def new_scraper_def open_config_def
        default_config_def)

lemma open_scraper_fields:
  "max_retries (config (new_scraper open_config)) = 3"
  "max_consecutive_failures (config (new_scraper open_config)) = 5"
  "\<not> respect_robots_txt (config (new_scraper open_config))"
  "\<not> skip_weekends (config (new_scraper open_config))"
  "consecutive_failures (new_scraper open_config) = 0"
  "domain_counters (new_scraper open_config) = Map.empty"
  "clock (new_scraper open_config) = 0"
  "trace (new_scraper open_config) = []"
  by (simp_all add: new_scraper_def open_config_def default_config_def)

theorem backoff_after_first_attempt_counterexample:
  "max_retries (config (new_scraper open_config)) = 3
   \<and> fst (scrape_url example_lib dead_world (new_scraper open_config) news_url) = None
   \<and> pages_requested (trace (snd (scrape_url example_lib dead_world (new_scraper open_config) news_url)))
       = [news_url, news_url, news_url]
   \<and> backoffs (trace (snd (scrape_url example_lib dead_world (new_scraper open_config) news_url)))
       = [1, 2]
   \<and> backoffs (trace (snd (scrape_url example_lib dead_world (new_scraper open_config) news_url)))
       \<noteq> [0, 1]"
  by (simp add: dead_scrape open_scraper_fields)

theorem retries_back_off_by_powers_of_two_witness:
  "should_scrape_url example_lib dead_world (new_scraper open_config) news_url
     = (True, new_scraper open_config)
   \<and> (\<forall>i. session_get dead_world i news_url = None)
   \<and> fst (scrape_url example_lib dead_world (new_scraper open_config) news_url) = None
   \<and> consecutive_failures (snd (scrape_url example_lib dead_world (new_scraper open_config) news_url))
       = 1
   \<and> backoffs (trace (snd (scrape_url example_lib dead_world (new_scraper open_config) news_url)))
       = [1, 2]
   \<and> should_scrape_url example_lib flaky_world (new_scraper open_config) news_url
       = (True, new_scraper open_config)
   \<and> session_get flaky_world 0 news_url = None
   \<and> session_get flaky_world 1 news_url = None
   \<and> session_get flaky_world 2 news_url \<noteq> None
   \<and> fst (scrape_url example_lib flaky_world (new_scraper open_config) news_url) \<noteq> None
   \<and> consecutive_failures (snd (scrape_url example_lib flaky_world (new_scraper open_config) news_url))
       = 0
   \<and> trace (snd (scrape_url example_lib flaky_world (new_scraper open_config) news_url))
       = [Rate_limit_sleep, Page_get news_url, Backoff 1,
          Rate_limit_sleep, Page_get news_url, Backoff 2,
          Rate_limit_sleep, Page_get news_url]"
proof -
  note d = retries_back_off_by_powers_of_two
             [of example_lib dead_world "new_scraper open_config" news_url "new_scraper open_config"]
  note f = retries_back_off_by_powers_of_two
             [of example_lib flaky_world "new_scraper open_config" news_url "new_scraper open_config"]
  have dead: "\<forall>i. session_get dead_world i news_url = None"
    by (simp add: session_get_def dead_world_def)
  then have dfail: "\<forall>i<nat (max_retries (config (new_scraper open_config))).
                 session_get dead_world (clock (new_scraper open_config) + i) news_url = None"
    by simp
  have d1: "fst (scrape_url example_lib dead_world (new_scraper open_config) news_url) = None"
    and d2: "consecutive_failures
               (snd (scrape_url example_lib dead_world (new_scraper open_config) news_url))
             = consecutive_failures (new_scraper open_config) + 1"
    and d3: "backoffs (trace (snd (scrape_url example_lib dead_world (new_scraper open_config) news_url)))
             = backoffs (trace (new_scraper open_config))
               @ map (\<lambda>i. 2 ^ i) [0..<nat (max_retries (config (new_scraper open_config))) - 1]"
    using d open_gate dfail by blast+
  have f0: "session_get flaky_world 0 news_url = None"
    and f1: "session_get flaky_world 1 news_url = None"
    and f2: "session_get flaky_world 2 news_url \<noteq> None"
    by (simp_all add: session_get_def flaky_world_def)
  have k: "(2::nat) < nat (max_retries (config (new_scraper open_config)))"
    by (simp add: open_scraper_fields)
  have ffail: "\<forall>i<2. session_get flaky_world (clock (new_scraper open_config) + i) news_url = None"
    by (simp add: session_get_def flaky_world_def open_scraper_fields)
  have fhit: "session_get flaky_world (clock (new_scraper open_config) + 2) news_url \<noteq> None"
    by (simp add: session_get_def flaky_world_def open_scraper_fields)
  have f3: "fst (scrape_url example_lib flaky_world (new_scraper open_config) news_url) \<noteq> None"
    and f4: "consecutive_failures
               (snd (scrape_url example_lib flaky_world (new_scraper open_config) news_url)) = 0"
    and f5: "trace (snd (scrape_url example_lib flaky_world (new_scraper open_config) news_url))
             = trace (new_scraper open_config)
               @ concat (map (\<lambda>i. [Rate_limit_sleep, Page_get news_url, Backoff (2 ^ i)]) [0..<2])
               @ [Rate_limit_sleep, Page_get news_url]"
    using f open_gate k ffail fhit by blast+
  have two: "[0..<2] = [0, 1::nat]"
    by (simp add: upt_rec)
  show ?thesis
    using dead d1 d2 d3 f0 f1 f2 f3 f4 f5
    by (simp add: open_gate open_scraper_fields two)
qed

subsection \<open>The date-range driver\<close>

lemma generate_date_range_filter:
  "generate_date_range a b skip = filter (\<lambda>d. \<not> (skip \<and> 5 \<le> weekday d)) [a..b]"
proof (induction a b skip rule: generate_date_range.induct)
  case (1 current stop skip)
  show ?case
  proof (cases "current \<le> stop")
    case True
    then have "[current..stop] = current # [current + 1..stop]"
      by (simp add: upto_rec1)
    then show ?thesis
      using 1 True by (subst generate_date_range.simps) simp
  next
    case False
    then show ?thesis by (subst generate_date_range.simps) simp
  qed
qed

lemma generate_date_range_sorted: "sorted_wrt (<) (generate_date_range a b skip)"
  by (simp add: generate_date_range_filter sorted_wrt_filter)

lemma date_loop_stops:
  "max_consecutive_failures (config s) \<le> int (consecutive_failures s) \<Longrightarrow>
   date_loop L w t ds s rs = (rs, s)"
  by (cases ds) simp_all

lemma date_loop_failed_date:
  assumes "int (consecutive_failures s) < max_consecutive_failures (config s)"
    and "fst (scrape_url L w s (format_url_with_date L t d)) = None"
  shows "date_loop L w t (d # ds) s rs
         = date_loop L w t ds (snd (scrape_url L w s (format_url_with_date L t d))) rs"
  using assms by (cases "scrape_url L w s (format_url_with_date L t d)") simp

lemma date_loop_prefix: "prefix rs (fst (date_loop L w t ds s rs))"
proof (induction ds arbitrary: s rs)
  case Nil
  then show ?case by simp
next
  case (Cons d ds)
  show ?case
  proof (cases "scrape_url L w s (format_url_with_date L t d)")
    case (Pair r s')
    show ?thesis
    proof (cases r)
      case None
      then show ?thesis using Pair Cons.IH by simp
    next
      case (Some data)
      have "prefix rs (rs @ [data\<lparr>scraped_date := Some d\<rparr>])" by simp
      then show ?thesis
        using Pair Some Cons.IH [of "rs @ [data\<lparr>scraped_date := Some d\<rparr>]" s']
        by (auto dest: append_prefixD)
    qed
  qed
qed

lemma date_loop_dates:
  "\<exists>xs. map scraped_date (fst (date_loop L w t ds s rs)) = map scraped_date rs @ xs
        \<and> subseq xs (map Some ds)"
proof (induction ds arbitrary: s rs)
  case Nil
  then show ?case by simp
next
  case (Cons d ds)
  show ?case
  proof (cases "max_consecutive_failures (config s) \<le> int (consecutive_failures s)")
    case True
    then show ?thesis by (simp add: date_loop_stops)
  next
    case False
    show ?thesis
    proof (cases "scrape_url L w s (format_url_with_date L t d)")
      case (Pair r s')
      show ?thesis
      proof (cases r)
        case None
        from Cons.IH [of s' rs] obtain xs
          where "map scraped_date (fst (date_loop L w t ds s' rs)) = map scraped_date rs @ xs"
            and "subseq xs (map Some ds)"
          by blast
        then show ?thesis
          using False Pair None by (auto intro: subseq_Cons')
      next
        case (Some data)
        from Cons.IH [of s' "rs @ [data\<lparr>scraped_date := Some d\<rparr>]"] obtain xs
          where "map scraped_date (fst (date_loop L w t ds s' (rs @ [data\<lparr>scraped_date := Some d\<rparr>])))
                 = map scraped_date (rs @ [data\<lparr>scraped_date := Some d\<rparr>]) @ xs"
            and "subseq xs (map Some ds)"
          by blast
        then have "map scraped_date (fst (date_loop L w t (d # ds) s rs))
                   = map scraped_date rs @ (Some d # xs)"
            and "subseq (Some d # xs) (map Some (d # ds))"
          using False Pair Some by simp_all
        then show ?thesis by blast
      qed
    qed
  qed
qed

lemma scrape_url_all_fail:
  assumes "\<not> respect_robots_txt (config s)"
    and "domain_counters s = Map.empty"
    and "\<forall>n u. session_get w n u = None"
  shows "scrape_url L w s page =
     (None, s\<lparr>clock := clock s + nat (max_retries (config s)),
              trace := trace s
                       @ concat (map (attempt_events s page) [0..<nat (max_retries (config s))]),
              consecutive_failures := Suc (consecutive_failures s)\<rparr>)"
proof -
  have gate: "should_scrape_url L w s page = (True, s)"
    using assms(1,2) by (simp add: should_scrape_url_def quota_reached_def)
  show ?thesis
    by (rule scrape_url_exhausted [OF gate]) (simp add: assms(3))
qed

lemma date_loop_all_fail:
  assumes "\<not> respect_robots_txt (config s)"
    and "domain_counters s = Map.empty"
    and "\<forall>n u. session_get w n u = None"
  shows "fst (date_loop L w t ds s rs) = rs
    \<and> consecutive_failures (snd (date_loop L w t ds s rs))
        = consecutive_failures s
          + min (nat (max_consecutive_failures (config s) - int (consecutive_failures s)))
                (length ds)
    \<and> pages_requested (trace (snd (date_loop L w t ds s rs)))
        = pages_requested (trace s)
          @ concat (map (\<lambda>d. replicate (nat (max_retries (config s))) (format_url_with_date L t d))
                     (take (nat (max_consecutive_failures (config s) - int (consecutive_failures s)))
                        ds))"
  using assms
proof (induction ds arbitrary: s)
  case Nil
  then show ?case by simp
next
  case (Cons d ds)
  show ?case
  proof (cases "max_consecutive_failures (config s) \<le> int (consecutive_failures s)")
    case True
    then show ?thesis by (simp add: date_loop_stops)
  next
    case False
    let ?page = "format_url_with_date L t d"
    let ?s' = "s\<lparr>clock := clock s + nat (max_retries (config s)),
              trace := trace s
                       @ concat (map (attempt_events s ?page) [0..<nat (max_retries (config s))]),
              consecutive_failures := Suc (consecutive_failures s)\<rparr>"
    have sc: "scrape_url L w s ?page = (None, ?s')"
      by (rule scrape_url_all_fail) (use Cons.prems in simp_all)
    have step: "date_loop L w t (d # ds) s rs = date_loop L w t ds ?s' rs"
      using False sc by simp
    have ih: "fst (date_loop L w t ds ?s' rs) = rs
      \<and> consecutive_failures (snd (date_loop L w t ds ?s' rs))
          = consecutive_failures ?s'
            + min (nat (max_consecutive_failures (config ?s') - int (consecutive_failures ?s')))
                  (length ds)
      \<and> pages_requested (trace (snd (date_loop L w t ds ?s' rs)))
          = pages_requested (trace ?s')
            @ concat (map (\<lambda>d. replicate (nat (max_retries (config ?s'))) (format_url_with_date L t d))
                       (take (nat (max_consecutive_failures (config ?s') - int (consecutive_failures ?s')))
                          ds))"
      by (rule Cons.IH) (use Cons.prems in simp_all)
    have k: "nat (max_consecutive_failures (config s) - int (consecutive_failures s))
             = Suc (nat (max_consecutive_failures (config s) - int (Suc (consecutive_failures s))))"
      using False by simp
    show ?thesis
      unfolding step using ih
      by (simp add: k pages_attempt_events del: of_nat_Suc)
  qed
qed

text \<open>
  The loop of \<open>lambda_handler\<close> adds one entry for every date, failed or not, and never
  reads the failure counter.
\<close>

lemma l_date_loop_dates:
  "map e_date (fst (l_date_loop L w t cat ds s acc)) = map e_date acc @ ds"
proof (induction ds arbitrary: s acc)
  case Nil
  then show ?case by simp
next
  case (Cons d ds)
  show ?case
  proof (cases "l_scrape_url L w s (format_url_with_date L t d)")
    case (Pair r s')
    then show ?thesis
      using Cons.IH by (cases r) (simp_all add: Let_def)
  qed
qed

lemma l_category_loop_dates:
  "map e_date (fst (l_category_loop L w templates ds s acc))
   = map e_date acc @ concat (map (\<lambda>tc. ds) templates)"
proof (induction templates arbitrary: s acc)
  case Nil
  then show ?case by simp
next
  case (Cons tc templates)
  obtain t cat where tc: "tc = (t, cat)" by (cases tc)
  obtain rs s' where r: "l_date_loop L w t cat ds s [] = (rs, s')"
    by (cases "l_date_loop L w t cat ds s []")
  then have "map e_date rs = ds"
    using l_date_loop_dates [of L w t cat ds s "[]"] by simp
  then show ?case
    using Cons.IH [of s' "acc @ rs"] tc r by simp
qed

text \<open>
  C3, as the code has it. The dates are generated in ascending order, one per day, weekends
  left out on request. Before each date the driver compares the failure counter with the
  threshold and, once it is reached, returns what it has gathered, touching nothing else.
  A date whose fetch returns nothing adds no entry to the returned list, and the loop goes
  on with the next date; the list only grows, by successful pages in date order. When every
  request fails, starting from zero failures, exactly the first \<open>max_consecutive_failures\<close>
  dates are attempted and the list gathered before is returned as it was.
\<close>

theorem date_range_returns_successes_until_threshold:
  "generate_date_range a b skip = filter (\<lambda>d. \<not> (skip \<and> 5 \<le> weekday d)) [a..b]
   \<and> sorted_wrt (<) (generate_date_range a b skip)
   \<and> (max_consecutive_failures (config s5) \<le> int (consecutive_failures s5)
        \<longrightarrow> date_loop L w t ds s5 rs = (rs, s5))
   \<and> (int (consecutive_failures s) < max_consecutive_failures (config s)
        \<and> fst (scrape_url L w s (format_url_with_date L t d)) = None
        \<longrightarrow> date_loop L w t (d # ds) s rs
            = date_loop L w t ds (snd (scrape_url L w s (format_url_with_date L t d))) rs)
   \<and> prefix rs (fst (date_loop L w t ds s rs))
   \<and> subseq (map scraped_date (fst (scrape_date_range L w s t a b)))
             (map Some (generate_date_range a b (skip_weekends (config s))))
   \<and> (\<not> respect_robots_txt (config s) \<and> domain_counters s = Map.empty
        \<and> consecutive_failures s = 0 \<and> (\<forall>n u. session_get w n u = None)
        \<longrightarrow> fst (date_loop L w t ds s rs) = rs
            \<and> consecutive_failures (snd (date_loop L w t ds s rs))
                = min (nat (max_consecutive_failures (config s))) (length ds)
            \<and> pages_requested (trace (snd (date_loop L w t ds s rs)))
                = pages_requested (trace s)
                  @ concat (map (\<lambda>d. replicate (nat (max_retries (config s)))
                                         (format_url_with_date L t d))
                             (take (nat (max_consecutive_failures (config s))) ds)))"
proof (intro conjI impI)
  show "generate_date_range a b skip = filter (\<lambda>d. \<not> (skip \<and> 5 \<le> weekday d)) [a..b]"
    by (rule generate_date_range_filter)
  show "sorted_wrt (<) (generate_date_range a b skip)"
    by (rule generate_date_range_sorted)
  show "date_loop L w t ds s5 rs = (rs, s5)"
    if "max_consecutive_failures (config s5) \<le> int (consecutive_failures s5)"
    using that by (rule date_loop_stops)
  show "date_loop L w t (d # ds) s rs
            = date_loop L w t ds (snd (scrape_url L w s (format_url_with_date L t d))) rs"
    if "int (consecutive_failures s) < max_consecutive_failures (config s)
        \<and> fst (scrape_url L w s (format_url_with_date L t d)) = None"
    using that date_loop_failed_date by blast
  show "prefix rs (fst (date_loop L w t ds s rs))"
    by (rule date_loop_prefix)
  show "subseq (map scraped_date (fst (scrape_date_range L w s t a b)))
             (map Some (generate_date_range a b (skip_weekends (config s))))"
    using date_loop_dates [of L w t "generate_date_range a b (skip_weekends (config s))" s "[]"]
    by (auto simp: scrape_date_range_def)
  assume h: "\<not> respect_robots_txt (config s) \<and> domain_counters s = Map.empty
        \<and> consecutive_failures s = 0 \<and> (\<forall>n u. session_get w n u = None)"
  then have af: "fst (date_loop L w t ds s rs) = rs
    \<and> consecutive_failures (snd (date_loop L w t ds s rs))
        = consecutive_failures s
          + min (nat (max_consecutive_failures (config s) - int (consecutive_failures s)))
                (length ds)
    \<and> pages_requested (trace (snd (date_loop L w t ds s rs)))
        = pages_requested (trace s)
          @ concat (map (\<lambda>d. replicate (nat (max_retries (config s))) (format_url_with_date L t d))
                     (take (nat (max_consecutive_failures (config s) - int (consecutive_failures s)))
                        ds))"
    by (intro date_loop_all_fail) simp_all
  show "fst (date_loop L w t ds s rs) = rs"
    using af by blast
  show "consecutive_failures (snd (date_loop L w t ds s rs))
                = min (nat (max_consecutive_failures (config s))) (length ds)"
    using af h by simp
  show "pages_requested (trace (snd (date_loop L w t ds s rs)))
                = pages_requested (trace s)
                  @ concat (map (\<lambda>d. replicate (nat (max_retries (config s)))
                                         (format_url_with_date L t d))
                             (take (nat (max_consecutive_failures (config s))) ds))"
    using af h by simp
qed

lemma str_nat_digit: "n < 10 \<Longrightarrow> str_nat n = [digit_char n]"
  by (subst str_nat.simps) simp

lemma january_urls:
  "format_url_with_date example_lib date_template 739252 = ''https://x.test/2025-01-01''"
  "format_url_with_date example_lib date_template 739253 = ''https://x.test/2025-01-02''"
  "format_url_with_date example_lib date_template 739254 = ''https://x.test/2025-01-03''"
  "format_url_with_date example_lib date_template 739255 = ''https://x.test/2025-01-04''"
  "format_url_with_date example_lib date_template 739256 = ''https://x.test/2025-01-05''"
  by (simp_all add: format_url_with_date_def date_str_def date_template_def example_lib_def
        pad2_def str_nat_digit digit_char_def startswith_def)

lemma six_days_range: "generate_date_range 739252 739257 False = six_days"
  by (simp add: generate_date_range_filter six_days_def upto_rec1)

lemma dead_world_fails: "\<forall>n u. session_get dead_world n u = None"
  by (simp add: session_get_def dead_world_def)

lemma dead_six_days:
  "fst (date_loop example_lib dead_world date_template six_days (new_scraper open_config) rs) = rs"
  "consecutive_failures
     (snd (date_loop example_lib dead_world date_template six_days (new_scraper open_config) rs)) = 5"
  "pages_requested
     (trace (snd (date_loop example_lib dead_world date_template six_days (new_scraper open_config) rs)))
   = concat (map (replicate 3)
       [''https://x.test/2025-01-01'', ''https://x.test/2025-01-02'', ''https://x.test/2025-01-03'',
        ''https://x.test/2025-01-04'', ''https://x.test/2025-01-05''])"
  using date_loop_all_fail
          [of "new_scraper open_config" dead_world example_lib date_template six_days rs]
        dead_world_fails
  by (simp_all add: open_scraper_fields)
     (simp_all add: six_days_def january_urls)

theorem date_range_failure_entries_counterexample:
  "generate_date_range 739252 739257 False = six_days
   \<and> max_consecutive_failures (config (new_scraper open_config)) = 5
   \<and> fst (scrape_date_range example_lib dead_world (new_scraper open_config) date_template
            739252 739257) = []
   \<and> consecutive_failures
         (snd (scrape_date_range example_lib dead_world (new_scraper open_config) date_template
                 739252 739257)) = 5
   \<and> pages_requested
         (trace (snd (scrape_date_range example_lib dead_world (new_scraper open_config)
                        date_template 739252 739257)))
       = concat (map (replicate 3)
           [''https://x.test/2025-01-01'', ''https://x.test/2025-01-02'',
            ''https://x.test/2025-01-03'', ''https://x.test/2025-01-04'',
            ''https://x.test/2025-01-05''])"
  by (simp add: scrape_date_range_def open_scraper_fields six_days_range dead_six_days)

theorem date_range_returns_successes_until_threshold_witness:
  "max_consecutive_failures (config tripped_scraper) \<le> int (consecutive_failures tripped_scraper)
   \<and> date_loop example_lib flaky_world date_template six_days tripped_scraper [flaky_result]
       = ([flaky_result], tripped_scraper)
   \<and> int (consecutive_failures (new_scraper open_config))
       < max_consecutive_failures (config (new_scraper open_config))
   \<and> fst (scrape_url example_lib dead_world (new_scraper open_config)
            (format_url_with_date example_lib date_template 739252)) = None
   \<and> date_loop example_lib dead_world date_template (739252 # six_days) (new_scraper open_config)
         [flaky_result]
       = date_loop example_lib dead_world date_template six_days
           (snd (scrape_url example_lib dead_world (new_scraper open_config)
                   (format_url_with_date example_lib date_template 739252)))
           [flaky_result]
   \<and> \<not> respect_robots_txt (config (new_scraper open_config))
   \<and> domain_counters (new_scraper open_config) = Map.empty
   \<and> consecutive_failures (new_scraper open_config) = 0
   \<and> (\<forall>n u. session_get dead_world n u = None)
   \<and> fst (date_loop example_lib dead_world date_template six_days (new_scraper open_config)
            [flaky_result]) = [flaky_result]
   \<and> consecutive_failures
         (snd (date_loop example_lib dead_world date_template six_days (new_scraper open_config)
                 [flaky_result])) = 5
   \<and> pages_requested
         (trace (snd (date_loop example_lib dead_world date_template six_days
                        (new_scraper open_config) [flaky_result])))
       = concat (map (\<lambda>d. replicate 3 (format_url_with_date example_lib date_template d))
           [739252, 739253, 739254, 739255, 739256])"
proof -
  note t = date_range_returns_successes_until_threshold
             [of 739252 739257 False tripped_scraper example_lib flaky_world date_template
                 six_days "[flaky_result]"]
  note u = date_range_returns_successes_until_threshold
             [of 739252 739257 False _ example_lib dead_world date_template
                 six_days "[flaky_result]" "new_scraper open_config" 739252]
  have trip: "max_consecutive_failures (config tripped_scraper)
              \<le> int (consecutive_failures tripped_scraper)"
    by (simp add: tripped_scraper_def new_scraper_def open_config_def default_config_def)
  have stop: "date_loop example_lib flaky_world date_template six_days tripped_scraper [flaky_result]
       = ([flaky_result], tripped_scraper)"
    using t trip by blast
  have below: "int (consecutive_failures (new_scraper open_config))
       < max_consecutive_failures (config (new_scraper open_config))"
    by (simp add: open_scraper_fields)
  have none: "fst (scrape_url example_lib dead_world (new_scraper open_config)
            (format_url_with_date example_lib date_template 739252)) = None"
    by (simp add: scrape_url_all_fail open_scraper_fields dead_world_fails)
  have "(date_loop example_lib dead_world date_template (739252 # six_days) (new_scraper open_config)
         [flaky_result]
       = date_loop example_lib dead_world date_template six_days
           (snd (scrape_url example_lib dead_world (new_scraper open_config)
                   (format_url_with_date example_lib date_template 739252)))
           [flaky_result])"
    using u below none by blast
  moreover have "fst (date_loop example_lib dead_world date_template six_days (new_scraper open_config)
            [flaky_result]) = [flaky_result]
    \<and> consecutive_failures
         (snd (date_loop example_lib dead_world date_template six_days (new_scraper open_config)
                 [flaky_result]))
       = min (nat (max_consecutive_failures (config (new_scraper open_config)))) (length six_days)
    \<and> pages_requested
         (trace (snd (date_loop example_lib dead_world date_template six_days
                        (new_scraper open_config) [flaky_result])))
       = pages_requested (trace (new_scraper open_config))
         @ concat (map (\<lambda>d. replicate (nat (max_retries (config (new_scraper open_config))))
                                (format_url_with_date example_lib date_template d))
                    (take (nat (max_consecutive_failures (config (new_scraper open_config))))
                       six_days))"
    using u open_scraper_fields(3,5,6) dead_world_fails by blast
  ultimately show ?thesis
    using trip stop below none dead_world_fails
    by (simp add: open_scraper_fields six_days_def)
qed

end
